theory Spec2Isabelle
  imports Complex_Main "HOL-Library.Word"
begin

unbundle bit_operations_syntax

section \<open>JavaScript strings\<close>

text \<open>
  A JavaScript string is a sequence of UTF-16 code units, and \<open>length\<close>, \<open>includes\<close>,
  \<open>replace\<close> and \<open>trim\<close> work on code units. The literals of the source are ASCII;
  \<open>lit\<close> turns an ASCII literal into its code units.
\<close>

type_synonym jsstring = "16 word list"

definition lit :: "string \<Rightarrow> jsstring" where
  "lit s = map of_char s"

text \<open>Does \<open>pat\<close> occur in \<open>s\<close> at position 0?\<close>

fun starts_with :: "'a list \<Rightarrow> 'a list \<Rightarrow> bool" where
  "starts_with s [] = True"
| "starts_with [] (p # ps) = False"
| "starts_with (c # cs) (p # ps) = (c = p \<and> starts_with cs ps)"

text \<open>\<open>String.prototype.includes(pat)\<close>: \<open>pat\<close> occurs somewhere in \<open>s\<close>.\<close>

fun includes_str :: "'a list \<Rightarrow> 'a list \<Rightarrow> bool" where
  "includes_str [] pat = (pat = [])"
| "includes_str (c # cs) pat = (starts_with (c # cs) pat \<or> includes_str cs pat)"

text \<open>
  \<open>String.prototype.replace(pat, rep)\<close> with a string pattern: the first occurrence of
  \<open>pat\<close> is replaced, the rest of the string is kept. (The replacement the source passes
  is the empty string, so the \<open>$\<close> patterns of a replacement string play no role.)
\<close>

fun replace_str :: "'a list \<Rightarrow> 'a list \<Rightarrow> 'a list \<Rightarrow> 'a list" where
  "replace_str [] pat rep = (if pat = [] then rep else [])"
| "replace_str (c # cs) pat rep =
     (if starts_with (c # cs) pat then rep @ drop (length pat) (c # cs)
      else c # replace_str cs pat rep)"

text \<open>
  The code units \<open>String.prototype.trim\<close> removes: ECMAScript's WhiteSpace and
  LineTerminator (TAB, LF, VT, FF, CR, SP, NBSP, the Unicode space separators,
  LS, PS and the byte order mark).
\<close>

definition isWhiteSpace :: "16 word \<Rightarrow> bool" where
  "isWhiteSpace c \<longleftrightarrow>
     c \<in> set
       [0x0009, 0x000A, 0x000B, 0x000C, 0x000D, 0x0020, 0x00A0, 0x1680,
        0x2000, 0x2001, 0x2002, 0x2003, 0x2004, 0x2005, 0x2006, 0x2007,
        0x2008, 0x2009, 0x200A, 0x2028, 0x2029, 0x202F, 0x205F, 0x3000, 0xFEFF]"

definition trim :: "jsstring \<Rightarrow> jsstring" where
  "trim s = rev (dropWhile isWhiteSpace (rev (dropWhile isWhiteSpace s)))"

text \<open>
  A degenerate reply, as the specification's glossary has it: the empty string, a single
  period, or white space only.
\<close>

definition degenerate :: "jsstring \<Rightarrow> bool" where
  "degenerate t \<longleftrightarrow> t = [] \<or> t = lit ''.'' \<or> list_all isWhiteSpace t"

section \<open>JavaScript values and the collaborators of the core\<close>

text \<open>A thrown value (a rejected promise), with its message.\<close>

datatype error = Thrown jsstring

text \<open>What \<open>think\<close> can resolve to: a string, or \<open>undefined\<close> (an array read out of range).\<close>

datatype jsval = Undefined | Str jsstring

text \<open>\<open>arr[i]\<close> for an integral index: \<open>undefined\<close> outside \<open>0 .. length - 1\<close>.\<close>

definition element_at :: "jsstring list \<Rightarrow> int \<Rightarrow> jsval" where
  "element_at arr i = (if 0 \<le> i \<and> i < int (length arr) then Str (arr ! nat i) else Undefined)"

subsection \<open>Doubles\<close>

text \<open>
  \<open>Math.random() * arr.length\<close> is a product of two IEEE 754 doubles, rounded to the
  nearest double with ties to the even significand; \<open>0.6 * 5\<close> is \<open>3\<close>, not a number
  just below it. A non-negative finite double is \<open>significand * 2 ^ exponent\<close> with a
  significand below \<open>2 ^ 53\<close> and an exponent from \<open>-1074\<close> to \<open>971\<close>.
\<close>

datatype double = Double (significand: nat) (exponent: int)

definition is_double :: "double \<Rightarrow> bool" where
  "is_double d \<longleftrightarrow> significand d < 2 ^ 53 \<and> - 1074 \<le> exponent d \<and> exponent d \<le> 971"

text \<open>The value of the double is less than 1.\<close>

definition below_one :: "double \<Rightarrow> bool" where
  "below_one d \<longleftrightarrow>
     (if 0 \<le> exponent d then significand d = 0
      else significand d < 2 ^ nat (- exponent d))"

text \<open>The number of binary digits of \<open>p\<close> beyond the 53 a significand holds.\<close>

function excess_bits :: "nat \<Rightarrow> nat" where
  "excess_bits p = (if p < 2 ^ 53 then 0 else Suc (excess_bits (p div 2)))"
  by pat_completeness auto
termination
  by (relation "measure (\<lambda>p. p)") auto

declare excess_bits.simps [simp del]

text \<open>\<open>p / 2 ^ s\<close> rounded to the nearest integer, a tie to the even one.\<close>

definition round_half_even :: "nat \<Rightarrow> nat \<Rightarrow> nat" where
  "round_half_even p s =
     (let q = p div 2 ^ s; r = p mod 2 ^ s
      in if 2 * r < 2 ^ s then q
         else if 2 ^ s < 2 * r then q + 1
         else if even q then q else q + 1)"

text \<open>
  The product \<open>d * n\<close> of a double and an array length (a natural number below
  \<open>2 ^ 53\<close>, itself a double): the exact product \<open>significand * n * 2 ^ exponent\<close>, its
  significand rounded to 53 binary digits. (The exponent only grows, so the result is
  not subnormal where \<open>d\<close> is not; the products of the core are below \<open>5\<close>, far from
  overflow.)
\<close>

definition times_nat :: "double \<Rightarrow> nat \<Rightarrow> double" where
  "times_nat d n =
     (let p = significand d * n; s = excess_bits p
      in Double (round_half_even p s) (exponent d + int s))"

text \<open>\<open>Math.floor\<close> of a non-negative double.\<close>

definition math_floor :: "double \<Rightarrow> nat" where
  "math_floor d =
     (if 0 \<le> exponent d then significand d * 2 ^ nat (exponent d)
      else significand d div 2 ^ nat (- exponent d))"

subsection \<open>The collaborators\<close>

text \<open>The options object passed to the local text-generation pipeline.\<close>

record generation_options =
  max_new_tokens :: nat
  temperature :: real
  top_k :: nat
  top_p :: real
  do_sample :: bool
  repetition_penalty :: real

text \<open>The backend invocations of one run, in order (a log kept by the model).\<close>

datatype call = LlmCall jsstring generation_options | CloudChat jsstring

text \<open>
  The code the core calls but does not contain: the text-generation pipeline of the
  vendored inference library (\<open>this.llm\<close>), the \<open>CloudAPIService\<close> object
  (\<open>this.cloudAPI\<close>, from \<open>cloudAPI.js\<close>) and \<open>Math.random\<close>. They are parameters of the
  model: arbitrary functions on an arbitrary state \<open>'w\<close> of the outside world, so that a
  call may fail, and may answer differently each time. The cloud service holds no
  reference to the \<open>BellaAI\<close> object, so its methods act on \<open>'w\<close> only.
\<close>

record 'w collaborators =
  llm_generate :: "jsstring \<Rightarrow> generation_options \<Rightarrow> 'w \<Rightarrow> (error + jsstring) \<times> 'w"
  cloud_isConfigured :: "'w \<Rightarrow> bool"
  cloud_chat :: "jsstring \<Rightarrow> 'w \<Rightarrow> (error + jsstring) \<times> 'w"
  cloud_switchProvider :: "jsstring \<Rightarrow> 'w \<Rightarrow> bool \<times> 'w"
  cloud_setAPIKey :: "jsstring \<Rightarrow> jsstring \<Rightarrow> 'w \<Rightarrow> bool \<times> 'w"
  cloud_clearHistory :: "'w \<Rightarrow> 'w"
  math_random :: "'w \<Rightarrow> double \<times> 'w"

text \<open>\<open>Math.random()\<close> returns a double \<open>r\<close> with \<open>0 \<le> r < 1\<close>.\<close>

definition random_in_unit :: "'w collaborators \<Rightarrow> bool" where
  "random_in_unit E \<longleftrightarrow>
     (\<forall>w. is_double (fst (math_random E w)) \<and> below_one (fst (math_random E w)))"

section \<open>The class BellaAI (src/core.js)\<close>

text \<open>
  The fields of the object: \<open>llm_loaded\<close> says whether \<open>this.llm\<close> holds a pipeline
  (\<open>init\<close> leaves it undefined when loading fails), \<open>world\<close> is the state of the
  collaborators, \<open>calls\<close> the log of backend invocations. The speech fields
  (\<open>asr\<close>, \<open>tts\<close>) and the output on the console play no role in \<open>think\<close> and the
  setters, and are left out.
\<close>

record 'w bellaAI =
  llm_loaded :: bool
  useCloudAPI :: bool
  currentMode :: jsstring
  world :: 'w
  calls :: "call list"

text \<open>The constructor, followed by \<open>init\<close> with the outcome of loading the LLM.\<close>

definition new_BellaAI :: "bool \<Rightarrow> 'w \<Rightarrow> 'w bellaAI" where
  "new_BellaAI loaded w =
     \<lparr>llm_loaded = loaded, useCloudAPI = False, currentMode = lit ''casual'',
      world = w, calls = []\<rparr>"

subsection \<open>Prompts\<close>

text \<open>The object literal \<open>englishPrompts\<close> of \<open>enhancePromptForMode\<close>, as its own properties.\<close>

definition englishPrompts :: "jsstring \<Rightarrow> (jsstring \<times> jsstring) list" where
  "englishPrompts prompt =
     [(lit ''casual'',
         lit ''You are Bella, a friendly AI. Have a natural conversation in English. User: ''
           @ [0x22] @ prompt @ [0x22, 0x0A] @ lit ''Bella:''),
      (lit ''assistant'',
         lit ''You are Bella, a helpful AI assistant. Respond naturally in English. User: ''
           @ [0x22] @ prompt @ [0x22, 0x0A] @ lit ''Bella:''),
      (lit ''creative'',
         lit ''You are Bella, a creative AI companion. Chat naturally in English. User: ''
           @ [0x22] @ prompt @ [0x22, 0x0A] @ lit ''Bella:'')]"

text \<open>
  \<open>englishPrompts[this.currentMode] || englishPrompts.casual\<close>: a missing property and an
  empty string are falsy. (\<open>currentMode\<close> is only ever assigned \<open>'casual'\<close> by the
  constructor and a checked mode by \<open>setChatMode\<close>, so the properties inherited from
  \<open>Object.prototype\<close> are never looked up.)
\<close>

definition enhancePromptForMode :: "'w bellaAI \<Rightarrow> jsstring \<Rightarrow> bool \<Rightarrow> jsstring" where
  "enhancePromptForMode s prompt isLocal =
     (if isLocal then
        (case map_of (englishPrompts prompt) (currentMode s) of
           None \<Rightarrow> the (map_of (englishPrompts prompt) (lit ''casual''))
         | Some t \<Rightarrow> if t = [] then the (map_of (englishPrompts prompt) (lit ''casual'')) else t)
      else
        lit ''You are Bella, a friendly AI assistant. Please respond naturally and conversationally in English.''
          @ [0x0A, 0x0A] @ lit ''User: '' @ prompt @ [0x0A] @ lit ''Bella:'')"

text \<open>The template \<open>englishPrompt\<close> of \<open>thinkWithLocalModel\<close>.\<close>

definition englishPrompt :: "jsstring \<Rightarrow> jsstring" where
  "englishPrompt prompt =
     lit ''You are Bella, a friendly AI assistant. Please respond naturally and conversationally in English. User says: ''
       @ [0x22] @ prompt @ [0x22, 0x0A] @ lit ''Bella:''"

definition llm_options :: generation_options where
  "llm_options =
     \<lparr>max_new_tokens = 80, temperature = 0.8, top_k = 40, top_p = 0.9,
      do_sample = True, repetition_penalty = 1.2\<rparr>"

subsection \<open>The fixed strings\<close>

definition still_learning :: jsstring where
  "still_learning = lit ''I'm still learning how to think, please wait a moment...''"

definition naturalResponses :: "jsstring list" where
  "naturalResponses =
     [lit ''Hi! I'm doing great, thanks for asking! How about you?'',
      lit ''Hello there! I'm Bella, nice to meet you! What's on your mind?'',
      lit ''Hey! I'm here and ready to chat. What would you like to talk about?'',
      lit ''Hi! I'm feeling wonderful today. How can I help you?'',
      lit ''Hello! Thanks for saying hi. I'm doing well - how are you doing?'']"

definition errorResponses :: "jsstring list" where
  "errorResponses =
     [lit ''Sorry, I'm a bit confused right now, let me reorganize my thoughts...'',
      lit ''Hmm... let me think about this more, please wait a moment.'',
      lit ''My thoughts are a bit complex, I need time to organize them.'',
      lit ''Let me reorganize and get back to you, just a moment.'']"

subsection \<open>think and its two paths\<close>

text \<open>\<open>thinkWithCloudAPI\<close>: what \<open>chat\<close> resolves to is returned as it is; a rejection propagates.\<close>

definition thinkWithCloudAPI ::
  "'w collaborators \<Rightarrow> jsstring \<Rightarrow> 'w bellaAI \<Rightarrow> (error + jsval) \<times> 'w bellaAI" where
  "thinkWithCloudAPI E prompt s =
     (let enhancedPrompt = enhancePromptForMode s prompt False in
      case cloud_chat E enhancedPrompt (world s) of
        (r, w1) \<Rightarrow>
          (map_sum id Str r, s\<lparr>world := w1, calls := calls s @ [CloudChat enhancedPrompt]\<rparr>))"

text \<open>
  \<open>thinkWithLocalModel\<close>. A failure of the pipeline call propagates to the caller; the
  clean-up and the replacement of a short answer cannot fail.
\<close>

definition thinkWithLocalModel ::
  "'w collaborators \<Rightarrow> jsstring \<Rightarrow> 'w bellaAI \<Rightarrow> (error + jsval) \<times> 'w bellaAI" where
  "thinkWithLocalModel E prompt s =
     (if \<not> llm_loaded s then (Inr (Str still_learning), s)
      else
        case llm_generate E (englishPrompt prompt) llm_options (world s) of
          (result, w1) \<Rightarrow>
            (let s1 = s\<lparr>world := w1, calls := calls s @ [LlmCall (englishPrompt prompt) llm_options]\<rparr> in
             case result of
               Inl err \<Rightarrow> (Inl err, s1)
             | Inr generated_text \<Rightarrow>
                 (let response =
                        (if includes_str generated_text (englishPrompt prompt)
                         then trim (replace_str generated_text (englishPrompt prompt) [])
                         else generated_text)
                  in
                    if response = [] \<or> length response < 3 \<or> response = lit ''.''
                       \<or> trim response = []
                    then
                      (case math_random E (world s1) of
                         (r, w2) \<Rightarrow>
                           (Inr (element_at naturalResponses
                                   (int (math_floor (times_nat r (length naturalResponses))))),
                            s1\<lparr>world := w2\<rparr>))
                    else (Inr (Str response), s1))))"

definition getErrorResponse :: "'w collaborators \<Rightarrow> 'w bellaAI \<Rightarrow> jsval \<times> 'w bellaAI" where
  "getErrorResponse E s =
     (case math_random E (world s) of
        (r, w1) \<Rightarrow>
          (element_at errorResponses (int (math_floor (times_nat r (length errorResponses)))),
           s\<lparr>world := w1\<rparr>))"

text \<open>
  \<open>think\<close>: the \<open>try\<close> block takes the cloud path when \<open>useCloudAPI\<close> is set and the service
  says it is configured, the local path otherwise. The \<open>catch\<close> block runs on a failure of
  either; it tries the local path (again) when \<open>useCloudAPI\<close> is set, and ends with
  \<open>getErrorResponse\<close>.
\<close>

definition think ::
  "'w collaborators \<Rightarrow> jsstring \<Rightarrow> 'w bellaAI \<Rightarrow> (error + jsval) \<times> 'w bellaAI" where
  "think E prompt s =
     (case (if useCloudAPI s \<and> cloud_isConfigured E (world s)
            then thinkWithCloudAPI E prompt s
            else thinkWithLocalModel E prompt s) of
        (Inr response, s1) \<Rightarrow> (Inr response, s1)
      | (Inl err, s1) \<Rightarrow>
          (if useCloudAPI s1 then
             (case thinkWithLocalModel E prompt s1 of
                (Inr response, s2) \<Rightarrow> (Inr response, s2)
              | (Inl localError, s2) \<Rightarrow> map_prod Inr id (getErrorResponse E s2))
           else map_prod Inr id (getErrorResponse E s1)))"

subsection \<open>The setters\<close>

definition setChatMode :: "jsstring \<Rightarrow> 'w bellaAI \<Rightarrow> bool \<times> 'w bellaAI" where
  "setChatMode mode s =
     (if mode \<in> set [lit ''casual'', lit ''assistant'', lit ''creative'']
      then (True, s\<lparr>currentMode := mode\<rparr>)
      else (False, s))"

definition switchProvider ::
  "'w collaborators \<Rightarrow> jsstring \<Rightarrow> 'w bellaAI \<Rightarrow> bool \<times> 'w bellaAI" where
  "switchProvider E provider s =
     (if provider = lit ''local'' then (True, s\<lparr>useCloudAPI := False\<rparr>)
      else
        case cloud_switchProvider E provider (world s) of
          (success, w1) \<Rightarrow>
            (success,
             if success then s\<lparr>world := w1, useCloudAPI := True\<rparr> else s\<lparr>world := w1\<rparr>))"

definition setAPIKey ::
  "'w collaborators \<Rightarrow> jsstring \<Rightarrow> jsstring \<Rightarrow> 'w bellaAI \<Rightarrow> bool \<times> 'w bellaAI" where
  "setAPIKey E provider apiKey s =
     (case cloud_setAPIKey E provider apiKey (world s) of
        (ok, w1) \<Rightarrow> (ok, s\<lparr>world := w1\<rparr>))"

definition clearHistory :: "'w collaborators \<Rightarrow> 'w bellaAI \<Rightarrow> 'w bellaAI" where
  "clearHistory E s = s\<lparr>world := cloud_clearHistory E (world s)\<rparr>"

section \<open>The audio encoder (convertFloat32ArrayToWav)\<close>

text \<open>
  A JavaScript number: a real number, an infinity or NaN. The numbers of the encoder are
  the elements of a \<open>Float32Array\<close>, small integers and their products; on these the
  arithmetic of doubles is exact (a 24-bit significand times \<open>32767\<close> fits 53 bits), so
  the model computes with real numbers.
\<close>

datatype jsnum = Num real | PosInfinity | NegInfinity | NaN

fun math_min :: "jsnum \<Rightarrow> jsnum \<Rightarrow> jsnum" where
  "math_min NaN y = NaN"
| "math_min x NaN = NaN"
| "math_min NegInfinity y = NegInfinity"
| "math_min x NegInfinity = NegInfinity"
| "math_min PosInfinity y = y"
| "math_min x PosInfinity = x"
| "math_min (Num a) (Num b) = Num (min a b)"

fun math_max :: "jsnum \<Rightarrow> jsnum \<Rightarrow> jsnum" where
  "math_max NaN y = NaN"
| "math_max x NaN = NaN"
| "math_max PosInfinity y = PosInfinity"
| "math_max x PosInfinity = PosInfinity"
| "math_max NegInfinity y = y"
| "math_max x NegInfinity = x"
| "math_max (Num a) (Num b) = Num (max a b)"

text \<open>The product \<open>x * y\<close> of two numbers.\<close>

fun js_times :: "jsnum \<Rightarrow> jsnum \<Rightarrow> jsnum" where
  "js_times NaN y = NaN"
| "js_times x NaN = NaN"
| "js_times (Num a) (Num b) = Num (a * b)"
| "js_times (Num a) PosInfinity = (if a = 0 then NaN else if 0 < a then PosInfinity else NegInfinity)"
| "js_times (Num a) NegInfinity = (if a = 0 then NaN else if 0 < a then NegInfinity else PosInfinity)"
| "js_times PosInfinity (Num b) = (if b = 0 then NaN else if 0 < b then PosInfinity else NegInfinity)"
| "js_times NegInfinity (Num b) = (if b = 0 then NaN else if 0 < b then NegInfinity else PosInfinity)"
| "js_times PosInfinity PosInfinity = PosInfinity"
| "js_times PosInfinity NegInfinity = NegInfinity"
| "js_times NegInfinity PosInfinity = NegInfinity"
| "js_times NegInfinity NegInfinity = PosInfinity"

text \<open>Rounding towards zero.\<close>

definition js_truncate :: "real \<Rightarrow> int" where
  "js_truncate x = (if 0 \<le> x then \<lfloor>x\<rfloor> else \<lceil>x\<rceil>)"

text \<open>
  ECMAScript's \<open>ToUint8\<close>, \<open>ToUint16\<close>, \<open>ToInt16\<close>, \<open>ToUint32\<close>: NaN and the infinities
  give 0, a finite number is rounded towards zero and reduced modulo \<open>2 ^ n\<close>. The signed
  and the unsigned conversion give the same \<open>n\<close> bits.
\<close>

fun to_bits :: "jsnum \<Rightarrow> 'a::len word" where
  "to_bits (Num x) = word_of_int (js_truncate x)"
| "to_bits v = 0"

type_synonym bytes = "8 word list"

text \<open>The bytes of a 16-bit and of a 32-bit value, least significant first.\<close>

definition le16 :: "16 word \<Rightarrow> bytes" where
  "le16 v = [ucast v, ucast (drop_bit 8 v)]"

definition le32 :: "32 word \<Rightarrow> bytes" where
  "le32 v = [ucast v, ucast (drop_bit 8 v), ucast (drop_bit 16 v), ucast (drop_bit 24 v)]"

text \<open>
  A \<open>DataView\<close> setter stores its bytes at \<open>off\<close>, and throws a \<open>RangeError\<close> when they do
  not fit into the buffer.
\<close>

definition store :: "nat \<Rightarrow> bytes \<Rightarrow> bytes \<Rightarrow> error + bytes" where
  "store off bs buf =
     (if off + length bs \<le> length buf
      then Inr (take off buf @ bs @ drop (off + length bs) buf)
      else Inl (Thrown (lit ''RangeError'')))"

definition setUint8 :: "nat \<Rightarrow> jsnum \<Rightarrow> bytes \<Rightarrow> error + bytes" where
  "setUint8 off v buf = store off [to_bits v] buf"

text \<open>The following three are the setters called with \<open>littleEndian = true\<close>.\<close>

definition setUint16 :: "nat \<Rightarrow> jsnum \<Rightarrow> bytes \<Rightarrow> error + bytes" where
  "setUint16 off v buf = store off (le16 (to_bits v)) buf"

definition setInt16 :: "nat \<Rightarrow> jsnum \<Rightarrow> bytes \<Rightarrow> error + bytes" where
  "setInt16 off v buf = store off (le16 (to_bits v)) buf"

definition setUint32 :: "nat \<Rightarrow> jsnum \<Rightarrow> bytes \<Rightarrow> error + bytes" where
  "setUint32 off v buf = store off (le32 (to_bits v)) buf"

text \<open>The matching little-endian getters, to read the output back.\<close>

definition getUint16 :: "nat \<Rightarrow> bytes \<Rightarrow> 16 word" where
  "getUint16 off b = ucast (b ! off) OR push_bit 8 (ucast (b ! (off + 1)))"

definition getInt16 :: "nat \<Rightarrow> bytes \<Rightarrow> int" where
  "getInt16 off b = sint (getUint16 off b)"

definition getUint32 :: "nat \<Rightarrow> bytes \<Rightarrow> 32 word" where
  "getUint32 off b =
     ucast (b ! off) OR push_bit 8 (ucast (b ! (off + 1)))
       OR push_bit 16 (ucast (b ! (off + 2))) OR push_bit 24 (ucast (b ! (off + 3)))"

text \<open>\<open>writeString\<close>: one \<open>setUint8\<close> per code unit of the string.\<close>

fun writeString :: "nat \<Rightarrow> jsstring \<Rightarrow> bytes \<Rightarrow> error + bytes" where
  "writeString off [] buf = Inr buf"
| "writeString off (c # cs) buf =
     (case setUint8 off (Num (real (unat c))) buf of
        Inl e \<Rightarrow> Inl e
      | Inr buf1 \<Rightarrow> writeString (off + 1) cs buf1)"

text \<open>The statements of a block, one after the other; a throw ends the block.\<close>

fun in_sequence :: "(bytes \<Rightarrow> error + bytes) list \<Rightarrow> bytes \<Rightarrow> error + bytes" where
  "in_sequence [] buf = Inr buf"
| "in_sequence (stmt # stmts) buf =
     (case stmt buf of Inl e \<Rightarrow> Inl e | Inr buf1 \<Rightarrow> in_sequence stmts buf1)"

text \<open>The loop over the samples, from \<open>offset\<close> on.\<close>

fun write_samples :: "jsnum list \<Rightarrow> nat \<Rightarrow> bytes \<Rightarrow> error + bytes" where
  "write_samples [] offset buf = Inr buf"
| "write_samples (x # xs) offset buf =
     (let sample = math_max (Num (- 1)) (math_min (Num 1) x) in
      case setInt16 offset (js_times sample (Num 32767)) buf of
        Inl e \<Rightarrow> Inl e
      | Inr buf1 \<Rightarrow> write_samples xs (offset + 2) buf1)"

definition convertFloat32ArrayToWav :: "jsnum list \<Rightarrow> jsnum \<Rightarrow> error + bytes" where
  "convertFloat32ArrayToWav audioData sampleRate =
     (let len = length audioData;
          buffer = replicate (44 + len * 2) 0
      in in_sequence
           [writeString 0 (lit ''RIFF''),
            setUint32 4 (Num (real (36 + len * 2))),
            writeString 8 (lit ''WAVE''),
            writeString 12 (lit ''fmt ''),
            setUint32 16 (Num 16),
            setUint16 20 (Num 1),
            setUint16 22 (Num 1),
            setUint32 24 sampleRate,
            setUint32 28 (js_times sampleRate (Num 2)),
            setUint16 32 (Num 2),
            setUint16 34 (Num 16),
            writeString 36 (lit ''data''),
            setUint32 40 (Num (real (len * 2))),
            write_samples audioData 44]
           buffer)"

text \<open>
  The reference encoding of a sample, from the words of the specification: clamp to
  \<open>[-1, 1]\<close>, scale by \<open>32767\<close> and round to the nearest integer.
\<close>

definition reference_int16 :: "real \<Rightarrow> int" where
  "reference_int16 x = round (max (- 1) (min 1 x) * 32767)"

text \<open>The two bytes the loop stores for a sample.\<close>

definition sample_bytes :: "jsnum \<Rightarrow> bytes" where
  "sample_bytes x =
     le16 (to_bits (js_times (math_max (Num (- 1)) (math_min (Num 1) x)) (Num 32767)))"

text \<open>The 44 bytes the header statements store.\<close>

definition wav_header :: "nat \<Rightarrow> jsnum \<Rightarrow> bytes" where
  "wav_header len sampleRate =
     [0x52, 0x49, 0x46, 0x46] @ le32 (word_of_nat (36 + len * 2))
     @ [0x57, 0x41, 0x56, 0x45] @ [0x66, 0x6D, 0x74, 0x20]
     @ le32 16 @ le16 1 @ le16 1
     @ le32 (to_bits sampleRate) @ le32 (to_bits (js_times sampleRate (Num 2)))
     @ le16 2 @ le16 16
     @ [0x64, 0x61, 0x74, 0x61] @ le32 (word_of_nat (len * 2))"

text \<open>The bytes of an ASCII tag.\<close>

definition ascii :: "string \<Rightarrow> bytes" where
  "ascii s = map of_char s"

section \<open>Test doubles for the collaborators\<close>

text \<open>
  A scripted outside world for the concrete runs below: the local pipeline and the cloud
  chat answer from a script (an outcome per call, a failure once the script is used up),
  the service is configured or not, accepts a provider or not, and \<open>Math.random\<close>
  reads from a script the numerators \<open>m\<close> of the doubles \<open>m / 2 ^ 53\<close> it returns.
\<close>

record stub_world =
  configured :: bool
  provider_known :: bool
  llm_script :: "(error + jsstring) list"
  chat_script :: "(error + jsstring) list"
  random_script :: "nat list"

definition stub :: "stub_world collaborators" where
  "stub =
     \<lparr>llm_generate = (\<lambda>p opts w. case llm_script w of
                         [] \<Rightarrow> (Inl (Thrown (lit ''no answer'')), w)
                       | r # rs \<Rightarrow> (r, w\<lparr>llm_script := rs\<rparr>)),
      cloud_isConfigured = configured,
      cloud_chat = (\<lambda>p w. case chat_script w of
                      [] \<Rightarrow> (Inl (Thrown (lit ''no answer'')), w)
                    | r # rs \<Rightarrow> (r, w\<lparr>chat_script := rs\<rparr>)),
      cloud_switchProvider = (\<lambda>p w. (provider_known w, w)),
      cloud_setAPIKey = (\<lambda>p k w. (k \<noteq> [], w\<lparr>configured := (k \<noteq> [])\<rparr>)),
      cloud_clearHistory = (\<lambda>w. w),
      math_random = (\<lambda>w. case random_script w of
                       [] \<Rightarrow> (Double 0 (- 53), w)
                     | m # ms \<Rightarrow> (Double (m mod 2 ^ 53) (- 53), w\<lparr>random_script := ms\<rparr>))\<rparr>"

definition stub_world0 :: stub_world where
  "stub_world0 =
     \<lparr>configured = False, provider_known = False, llm_script = [], chat_script = [],
      random_script = []\<rparr>"

text \<open>A world where the cloud service is configured, and one where it is not.\<close>

definition cloud_world :: "(error + jsstring) list \<Rightarrow> (error + jsstring) list \<Rightarrow> stub_world" where
  "cloud_world chat llm =
     \<lparr>configured = True, provider_known = True, llm_script = llm, chat_script = chat,
      random_script = []\<rparr>"

definition local_world :: "(error + jsstring) list \<Rightarrow> stub_world" where
  "local_world llm =
     \<lparr>configured = False, provider_known = True, llm_script = llm, chat_script = [],
      random_script = []\<rparr>"

section \<open>What the string operations compute\<close>





lemma trim_Nil_iff: "trim s = [] \<longleftrightarrow> list_all isWhiteSpace s"
proof -
  have "trim s = [] \<longleftrightarrow> (\<forall>x \<in> set (dropWhile isWhiteSpace s). isWhiteSpace x)"
    by (simp add: trim_def dropWhile_eq_Nil_conv)
  also have "\<dots> \<longleftrightarrow> dropWhile isWhiteSpace s = []"
    by (metis hd_dropWhile list.set_sel(1) empty_iff list.set(1))
  also have "\<dots> \<longleftrightarrow> list_all isWhiteSpace s"
    by (simp add: dropWhile_eq_Nil_conv list_all_iff)
  finally show ?thesis .
qed

text \<open>
  The index \<open>Math.floor(Math.random() * n)\<close>. The rounded significand is within half a
  unit of the exact one, on either side; the rounding can carry the product to the next
  integer, but never to \<open>n\<close>.
\<close>

lemma excess_bits_small: "p < 2 ^ 53 \<Longrightarrow> excess_bits p = 0"
  by (subst excess_bits.simps) simp

lemma excess_bits_large: "\<not> p < 2 ^ 53 \<Longrightarrow> excess_bits p = Suc (excess_bits (p div 2))"
  by (subst excess_bits.simps) simp

lemmas double_eval = times_nat_def math_floor_def round_half_even_def
  excess_bits_small excess_bits_large

lemma random_index_example_0_6: "math_floor (times_nat (Double 5404319552844595 (- 53)) 5) = 3"
  by (simp add: double_eval)

lemma random_index_example_largest: "math_floor (times_nat (Double 9007199254740991 (- 53)) 5) = 4"
  by (simp add: double_eval)

lemma random_index_example_smallest: "math_floor (times_nat (Double 1 (- 1074)) 5) = 0"
  by (simp add: double_eval)


lemma excess_bits_le: "p < 2 ^ (53 + t) \<Longrightarrow> excess_bits p \<le> t"
proof (induction t arbitrary: p)
  case 0
  then show ?case by (simp add: excess_bits_small)
next
  case (Suc t)
  show ?case
  proof (cases "p < 2 ^ 53")
    case True
    then show ?thesis by (simp add: excess_bits_small)
  next
    case False
    have "(2 :: nat) ^ (53 + Suc t) = 2 * 2 ^ (53 + t)" by (simp only: add_Suc_right power_Suc)
    then have "p < 2 * 2 ^ (53 + t)" using Suc.prems by (simp only:)
    then have "p div 2 < 2 ^ (53 + t)" by linarith
    then have "excess_bits (p div 2) \<le> t" by (rule Suc.IH)
    then show ?thesis using False by (simp add: excess_bits_large)
  qed
qed

lemma round_half_even_upper: "2 * (round_half_even p s * 2 ^ s) \<le> 2 * p + 2 ^ s"
proof -
  define q where "q = p div 2 ^ s"
  define r where "r = p mod 2 ^ s"
  have p: "p = q * 2 ^ s + r" unfolding q_def r_def by (rule div_mult_mod_eq [symmetric])
  have r: "r < 2 ^ s" by (simp add: r_def)
  have "round_half_even p s = q \<or> (round_half_even p s = q + 1 \<and> 2 ^ s \<le> 2 * r)"
    unfolding round_half_even_def Let_def q_def [symmetric] r_def [symmetric]
    by (cases "2 * r < 2 ^ s"; cases "2 ^ s < 2 * r"; cases "even q") simp_all
  then consider "round_half_even p s = q" | "round_half_even p s = q + 1 \<and> 2 ^ s \<le> 2 * r"
    by blast
  then show ?thesis
  proof cases
    case 1
    then show ?thesis using p by simp
  next
    case 2
    then have "2 * (round_half_even p s * 2 ^ s) = 2 * (q * 2 ^ s) + 2 * 2 ^ s"
      by (simp add: algebra_simps)
    also have "\<dots> \<le> 2 * (q * 2 ^ s) + 2 * r + 2 ^ s" using 2 by simp
    also have "\<dots> = 2 * p + 2 ^ s" using p by simp
    finally show ?thesis .
  qed
qed

lemma round_half_even_lower: "2 * p \<le> 2 * (round_half_even p s * 2 ^ s) + 2 ^ s"
proof -
  define q where "q = p div 2 ^ s"
  define r where "r = p mod 2 ^ s"
  have p: "p = q * 2 ^ s + r" unfolding q_def r_def by (rule div_mult_mod_eq [symmetric])
  have r: "r < 2 ^ s" by (simp add: r_def)
  have "(round_half_even p s = q \<and> 2 * r \<le> 2 ^ s) \<or> round_half_even p s = q + 1"
    unfolding round_half_even_def Let_def q_def [symmetric] r_def [symmetric]
    by (cases "2 * r < 2 ^ s"; cases "2 ^ s < 2 * r"; cases "even q") simp_all
  then consider "round_half_even p s = q \<and> 2 * r \<le> 2 ^ s" | "round_half_even p s = q + 1"
    by blast
  then show ?thesis
  proof cases
    case 1
    then show ?thesis using p by simp
  next
    case 2
    then have "2 * (round_half_even p s * 2 ^ s) = 2 * (q * 2 ^ s) + 2 * 2 ^ s"
      by (simp add: algebra_simps)
    then show ?thesis using p r by simp
  qed
qed

lemma times_nat_exact:
  assumes "significand d * n < 2 ^ 53"
  shows "times_nat d n = Double (significand d * n) (exponent d)"
  using assms by (simp add: times_nat_def round_half_even_def excess_bits_small)

lemma random_index_less:
  assumes "is_double d" and "below_one d" and "n \<le> 2 ^ t" and "2 ^ t < 2 * n"
  shows "math_floor (times_nat d n) < n"
proof (cases "0 \<le> exponent d")
  case True
  then have "significand d = 0" using assms(2) by (simp add: below_one_def)
  moreover have "0 < n" using assms(4) by (cases n) auto
  ultimately show ?thesis
    by (simp add: times_nat_def math_floor_def round_half_even_def excess_bits_small)
next
  case False
  define k where "k = nat (- exponent d)"
  define p where "p = significand d * n"
  define s where "s = excess_bits p"
  define R where "R = round_half_even p s"
  have e: "exponent d = - int k" using False by (simp add: k_def)
  have sig: "significand d < 2 ^ k" using assms(2) False by (simp add: below_one_def k_def)
  have "significand d < 2 ^ 53" using assms(1) by (simp add: is_double_def)
  moreover have "0 < n" using assms(4) by (cases n) auto
  ultimately have "significand d * n < 2 ^ 53 * n" by simp
  also have "\<dots> \<le> 2 ^ 53 * 2 ^ t" using assms(3) by simp
  finally have "p < 2 ^ 53 * 2 ^ t" by (simp add: p_def)
  then have st: "s \<le> t" unfolding s_def by (intro excess_bits_le) (simp add: power_add)
  have "2 * (R * 2 ^ s) \<le> 2 * p + 2 ^ s" unfolding R_def by (rule round_half_even_upper)
  also have "\<dots> \<le> 2 * p + 2 ^ t" using st by simp
  also have "\<dots> < 2 * p + 2 * n" using assms(4) by simp
  also have "\<dots> = 2 * (n * (significand d + 1))" by (simp add: p_def algebra_simps)
  also have "\<dots> \<le> 2 * (n * 2 ^ k)"
  proof -
    have "significand d + 1 \<le> 2 ^ k" using sig by simp
    then have "n * (significand d + 1) \<le> n * 2 ^ k" by (rule mult_le_mono2)
    then show ?thesis by simp
  qed
  finally have bound: "R * 2 ^ s < n * 2 ^ k" by simp
  have t: "times_nat d n = Double R (int s - int k)"
    by (simp add: times_nat_def Let_def p_def [symmetric] s_def [symmetric] R_def e)
  show ?thesis
  proof (cases "k \<le> s")
    case True
    then have "math_floor (times_nat d n) = R * 2 ^ (s - k)"
      by (simp add: t math_floor_def nat_diff_distrib' of_nat_diff [symmetric] del: of_nat_diff)
    moreover have "(2 :: nat) ^ (s - k) * 2 ^ k = 2 ^ s"
      using True by (simp add: power_add [symmetric])
    then have "R * 2 ^ (s - k) * 2 ^ k = R * 2 ^ s" by (simp only: mult.assoc)
    then have "R * 2 ^ (s - k) * 2 ^ k < n * 2 ^ k" using bound by (simp only:)
    then have "R * 2 ^ (s - k) < n" by (simp only: mult_less_cancel2)
    ultimately show ?thesis by simp
  next
    case False
    then have ks: "s < k" by simp
    then have "math_floor (times_nat d n) = R div 2 ^ (k - s)"
      by (simp add: t math_floor_def nat_diff_distrib' of_nat_diff [symmetric] del: of_nat_diff)
    moreover have "(2 :: nat) ^ (k - s) * 2 ^ s = 2 ^ k"
      using ks by (simp add: power_add [symmetric])
    then have "n * 2 ^ k = n * 2 ^ (k - s) * 2 ^ s" by (simp only: mult.assoc)
    then have "R * 2 ^ s < n * 2 ^ (k - s) * 2 ^ s" using bound by (simp only:)
    then have "R < n * 2 ^ (k - s)" by (simp only: mult_less_cancel2)
    then have "R div 2 ^ (k - s) < n" by (rule less_mult_imp_div_less)
    ultimately show ?thesis by simp
  qed
qed


lemma element_at_pool:
  assumes "is_double d" and "below_one d" and "length arr \<le> 2 ^ t" and "2 ^ t < 2 * length arr"
  shows "\<exists>x \<in> set arr. element_at arr (int (math_floor (times_nat d (length arr)))) = Str x"
proof -
  let ?i = "math_floor (times_nat d (length arr))"
  have i: "?i < length arr" using assms by (rule random_index_less)
  then have "element_at arr (int ?i) = Str (arr ! ?i)" by (simp add: element_at_def)
  moreover have "arr ! ?i \<in> set arr" using i by simp
  ultimately show ?thesis by blast
qed

lemma naturalResponses_pick:
  assumes "is_double d" and "below_one d"
  shows "\<exists>x \<in> set naturalResponses.
           element_at naturalResponses (int (math_floor (times_nat d (length naturalResponses))))
             = Str x"
  using assms by (rule element_at_pool [where t = 3]) (simp_all add: naturalResponses_def)

lemma errorResponses_pick:
  assumes "is_double d" and "below_one d"
  shows "\<exists>x \<in> set errorResponses.
           element_at errorResponses (int (math_floor (times_nat d (length errorResponses))))
             = Str x"
  using assms by (rule element_at_pool [where t = 2]) (simp_all add: errorResponses_def)

lemma still_learning_ok: "\<not> degenerate still_learning"
  by (simp add: degenerate_def still_learning_def lit_def isWhiteSpace_def)

lemma naturalResponses_ok: "x \<in> set naturalResponses \<Longrightarrow> \<not> degenerate x"
  by (auto simp: degenerate_def naturalResponses_def lit_def isWhiteSpace_def)

lemma errorResponses_ok: "x \<in> set errorResponses \<Longrightarrow> \<not> degenerate x"
  by (auto simp: degenerate_def errorResponses_def lit_def isWhiteSpace_def)

lemma thinkWithLocalModel_Inr:
  assumes "random_in_unit E" and "thinkWithLocalModel E prompt s = (Inr v, s')"
  shows "\<exists>t. v = Str t \<and> \<not> degenerate t"
proof (cases "llm_loaded s")
  case False
  then show ?thesis using assms(2) still_learning_ok by (auto simp: thinkWithLocalModel_def)
next
  case True
  obtain result w1 where g: "llm_generate E (englishPrompt prompt) llm_options (world s) = (result, w1)"
    by (cases "llm_generate E (englishPrompt prompt) llm_options (world s)")
  obtain r w2 where m: "math_random E w1 = (r, w2)" by (cases "math_random E w1")
  have r: "is_double r \<and> below_one r"
    using assms(1) m unfolding random_in_unit_def by (metis fst_conv)
  obtain x where x: "x \<in> set naturalResponses"
    "element_at naturalResponses (int (math_floor (times_nat r (length naturalResponses)))) = Str x"
    using naturalResponses_pick r by blast
  have pick: "\<exists>t. element_at naturalResponses
                     (int (math_floor (times_nat r (length naturalResponses)))) = Str t
                \<and> \<not> degenerate t"
    using x naturalResponses_ok by blast
  have keep: "\<And>t. \<not> (t = [] \<or> length t < 3 \<or> t = lit ''.'' \<or> trim t = []) \<Longrightarrow> \<not> degenerate t"
    by (simp add: degenerate_def trim_Nil_iff)
  show ?thesis
  proof (cases result)
    case (Inl err)
    then show ?thesis using assms(2) True g by (simp add: thinkWithLocalModel_def)
  next
    case (Inr generated_text)
    define response where "response =
      (if includes_str generated_text (englishPrompt prompt)
       then trim (replace_str generated_text (englishPrompt prompt) [])
       else generated_text)"
    show ?thesis
    proof (cases "response = [] \<or> length response < 3 \<or> response = lit ''.'' \<or> trim response = []")
      case True
      then have "v = element_at naturalResponses
                        (int (math_floor (times_nat r (length naturalResponses))))"
        using assms(2) \<open>llm_loaded s\<close> g m Inr unfolding response_def thinkWithLocalModel_def
        by (simp add: Let_def)
      then show ?thesis using pick by simp
    next
      case False
      then have "v = Str response"
        using assms(2) \<open>llm_loaded s\<close> g m Inr unfolding response_def thinkWithLocalModel_def
        by (simp add: Let_def)
      then show ?thesis using keep [OF False] by simp
    qed
  qed
qed

lemma getErrorResponse_pool:
  assumes "random_in_unit E"
  shows "\<exists>a \<in> set errorResponses. fst (getErrorResponse E s) = Str a"
proof -
  obtain r w1 where m: "math_random E (world s) = (r, w1)" by (cases "math_random E (world s)")
  have r: "is_double r \<and> below_one r"
    using assms m unfolding random_in_unit_def by (metis fst_conv)
  then show ?thesis using errorResponses_pick m by (simp add: getErrorResponse_def)
qed

lemma stub_random_in_unit: "random_in_unit stub"
  unfolding random_in_unit_def stub_def
  by (simp add: is_double_def below_one_def split: list.splits)

lemma think_resolves: "\<exists>v. fst (think E utterance s) = Inr v"
  unfolding think_def
  by (auto split: prod.splits sum.splits)


section \<open>think\<close>

text \<open>
  Claim C1, as the code has it. \<open>think\<close> never rejects. When the cloud path is taken and
  \<open>chat\<close> resolves, \<open>think\<close> resolves to exactly the text \<open>chat\<close> gave, with no check
  of it. In every other case (the local path, the fallback after a failed cloud call,
  the apology) it resolves to a string that is not empty, not a single period and not
  white space only.
\<close>

theorem C1_think_result:
  assumes "random_in_unit E"
  shows "(\<exists>v. fst (think E utterance s) = Inr v)
    \<and> (useCloudAPI s \<and> cloud_isConfigured E (world s)
         \<and> fst (cloud_chat E (enhancePromptForMode s utterance False) (world s)) = Inr t
        \<longrightarrow> fst (think E utterance s) = Inr (Str t))
    \<and> (\<not> (useCloudAPI s \<and> cloud_isConfigured E (world s)
            \<and> (\<exists>t. fst (cloud_chat E (enhancePromptForMode s utterance False) (world s)) = Inr t))
        \<longrightarrow> (\<exists>t. fst (think E utterance s) = Inr (Str t)
                 \<and> t \<noteq> [] \<and> t \<noteq> lit ''.'' \<and> \<not> list_all isWhiteSpace t))"
proof (intro conjI impI)
  show "\<exists>v. fst (think E utterance s) = Inr v" by (rule think_resolves)
next
  assume "useCloudAPI s \<and> cloud_isConfigured E (world s)
         \<and> fst (cloud_chat E (enhancePromptForMode s utterance False) (world s)) = Inr t"
  then show "fst (think E utterance s) = Inr (Str t)"
    by (auto simp: think_def thinkWithCloudAPI_def Let_def split: prod.splits sum.splits)
next
  assume no: "\<not> (useCloudAPI s \<and> cloud_isConfigured E (world s)
            \<and> (\<exists>t. fst (cloud_chat E (enhancePromptForMode s utterance False) (world s)) = Inr t))"
  have local: "\<And>v s0 s'. thinkWithLocalModel E utterance s0 = (Inr v, s') \<Longrightarrow>
                  \<exists>t. v = Str t \<and> \<not> degenerate t"
    using thinkWithLocalModel_Inr [OF assms] by blast
  have apology: "\<And>s0. \<exists>t. fst (getErrorResponse E s0) = Str t \<and> \<not> degenerate t"
    using getErrorResponse_pool [OF assms] errorResponses_ok by blast
  have "\<exists>t. fst (think E utterance s) = Inr (Str t) \<and> \<not> degenerate t"
  proof (cases "useCloudAPI s \<and> cloud_isConfigured E (world s)")
    case True
    then obtain e w1 where c: "cloud_chat E (enhancePromptForMode s utterance False) (world s) = (Inl e, w1)"
      using no by (cases "cloud_chat E (enhancePromptForMode s utterance False) (world s)")
                  (metis fst_conv sum.exhaust)
    define s1 where "s1 = s\<lparr>world := w1, calls := calls s @ [CloudChat (enhancePromptForMode s utterance False)]\<rparr>"
    have f: "thinkWithCloudAPI E utterance s = (Inl e, s1)"
      by (simp add: thinkWithCloudAPI_def c s1_def Let_def)
    have u: "useCloudAPI s1" using True by (simp add: s1_def)
    obtain r2 s2 where l: "thinkWithLocalModel E utterance s1 = (r2, s2)"
      by (cases "thinkWithLocalModel E utterance s1")
    show ?thesis
    proof (cases r2)
      case (Inl e')
      then have "think E utterance s = map_prod Inr id (getErrorResponse E s2)"
        using True f u l by (simp add: think_def)
      then show ?thesis using apology [of s2] by (cases "getErrorResponse E s2") auto
    next
      case (Inr v)
      then have "think E utterance s = (Inr v, s2)"
        using True f u l by (simp add: think_def)
      then show ?thesis using local l Inr by auto
    qed
  next
    case False
    obtain r1 s1 where l1: "thinkWithLocalModel E utterance s = (r1, s1)"
      by (cases "thinkWithLocalModel E utterance s")
    show ?thesis
    proof (cases r1)
      case (Inr v)
      then have "think E utterance s = (Inr v, s1)" using False l1 by (auto simp: think_def)
      then show ?thesis using local l1 Inr by auto
    next
      case (Inl e)
      obtain r2 s2 where l2: "thinkWithLocalModel E utterance s1 = (r2, s2)"
        by (cases "thinkWithLocalModel E utterance s1")
      show ?thesis
      proof (cases "useCloudAPI s1")
        case u: False
        then have "think E utterance s = map_prod Inr id (getErrorResponse E s1)"
          using False l1 Inl by (auto simp: think_def)
        then show ?thesis using apology [of s1] by (cases "getErrorResponse E s1") auto
      next
        case u: True
        show ?thesis
        proof (cases r2)
          case i2: (Inl e')
          then have "think E utterance s = map_prod Inr id (getErrorResponse E s2)"
            using False l1 Inl u l2 by (auto simp: think_def)
          then show ?thesis using apology [of s2] by (cases "getErrorResponse E s2") auto
        next
          case i2: (Inr v)
          then have "think E utterance s = (Inr v, s2)"
            using False l1 Inl u l2 by (auto simp: think_def)
          then show ?thesis using local l2 i2 by auto
        qed
      qed
    qed
  qed
  then show "\<exists>t. fst (think E utterance s) = Inr (Str t)
                 \<and> t \<noteq> [] \<and> t \<noteq> lit ''.'' \<and> \<not> list_all isWhiteSpace t"
    by (auto simp: degenerate_def)
qed

theorem C1_witness:
  "random_in_unit stub
   \<and> fst (think stub (lit ''hello'')
          (snd (switchProvider stub (lit ''openai'')
                  (new_BellaAI True (cloud_world [Inr (lit ''Hi, I am Bella.'')] [])))))
       = Inr (Str (lit ''Hi, I am Bella.''))
   \<and> (\<exists>t. fst (think stub [] (new_BellaAI True (local_world [Inr []]))) = Inr (Str t)
          \<and> t \<noteq> [] \<and> t \<noteq> lit ''.'' \<and> \<not> list_all isWhiteSpace t)"
proof -
  let ?c = "snd (switchProvider stub (lit ''openai'')
                  (new_BellaAI True (cloud_world [Inr (lit ''Hi, I am Bella.'')] [])))"
  let ?l = "new_BellaAI True (local_world [Inr []]) :: stub_world bellaAI"
  have c: "useCloudAPI ?c \<and> cloud_isConfigured stub (world ?c)
         \<and> fst (cloud_chat stub (enhancePromptForMode ?c (lit ''hello'') False) (world ?c))
             = Inr (lit ''Hi, I am Bella.'')"
    by (simp add: switchProvider_def new_BellaAI_def cloud_world_def stub_def lit_def)
  have l: "\<not> useCloudAPI ?l" by (simp add: new_BellaAI_def)
  show ?thesis
    using C1_think_result [OF stub_random_in_unit, of "lit ''hello''" ?c "lit ''Hi, I am Bella.''"]
          C1_think_result [OF stub_random_in_unit, of "[]" ?l]
          stub_random_in_unit c l
    by simp
qed

text \<open>
  The claim as stated fails on the cloud path: a configured cloud service whose \<open>chat\<close>
  resolves to the empty string makes \<open>think\<close> resolve to the empty string.
\<close>

theorem C1_counterexample:
  "fst (think stub (lit ''hello'')
          (snd (switchProvider stub (lit ''openai'')
                  (new_BellaAI True (cloud_world [Inr []] [])))))
     = Inr (Str [])"
  by (simp add: think_def thinkWithCloudAPI_def switchProvider_def new_BellaAI_def
        cloud_world_def stub_def lit_def)

text \<open>
  Claim C2. With \<open>useCloudAPI\<close> set, the service configured and \<open>chat\<close> failing,
  \<open>think\<close> is one run of the local path, started in the state the failed call left:
  it resolves to what that run returns, and to one of the four apologies when that run
  fails too. It never rejects, and the log shows the cloud call followed by at most one
  call of the local pipeline (exactly one when a model is loaded).
\<close>

theorem C2_cloud_failure_fallback:
  assumes "random_in_unit E" and "useCloudAPI s" and "cloud_isConfigured E (world s)"
    and "cloud_chat E (enhancePromptForMode s utterance False) (world s) = (Inl e, w1)"
  shows "(\<exists>v. fst (think E utterance s) = Inr v)
    \<and> (\<forall>v s2. thinkWithLocalModel E utterance
                 (s\<lparr>world := w1,
                    calls := calls s @ [CloudChat (enhancePromptForMode s utterance False)]\<rparr>)
               = (Inr v, s2)
            \<longrightarrow> think E utterance s = (Inr v, s2))
    \<and> (\<forall>e' s2. thinkWithLocalModel E utterance
                 (s\<lparr>world := w1,
                    calls := calls s @ [CloudChat (enhancePromptForMode s utterance False)]\<rparr>)
               = (Inl e', s2)
            \<longrightarrow> (\<exists>a \<in> set errorResponses. fst (think E utterance s) = Inr (Str a)))
    \<and> calls (snd (think E utterance s))
        = calls s @ [CloudChat (enhancePromptForMode s utterance False)]
            @ (if llm_loaded s then [LlmCall (englishPrompt utterance) llm_options] else [])"
proof -
  define s1 where "s1 = s\<lparr>world := w1,
     calls := calls s @ [CloudChat (enhancePromptForMode s utterance False)]\<rparr>"
  have f: "thinkWithCloudAPI E utterance s = (Inl e, s1)"
    by (simp add: thinkWithCloudAPI_def assms(4) s1_def Let_def)
  have u: "useCloudAPI s1" using assms(2) by (simp add: s1_def)
  have t: "think E utterance s =
             (case thinkWithLocalModel E utterance s1 of
                (Inr response, s2) \<Rightarrow> (Inr response, s2)
              | (Inl localError, s2) \<Rightarrow> map_prod Inr id (getErrorResponse E s2))"
    using assms(2,3) f u by (simp add: think_def)
  have log_local: "calls (snd (thinkWithLocalModel E utterance s1))
          = calls s1 @ (if llm_loaded s1 then [LlmCall (englishPrompt utterance) llm_options] else [])"
    by (simp add: thinkWithLocalModel_def Let_def split: prod.splits sum.splits)
  have log_err: "\<And>s0. calls (snd (getErrorResponse E s0)) = calls s0"
    by (simp add: getErrorResponse_def split: prod.splits)
  have 1: "\<exists>v. fst (think E utterance s) = Inr v"
    unfolding t by (auto split: prod.splits sum.splits)
  have 2: "\<forall>v s2. thinkWithLocalModel E utterance s1 = (Inr v, s2)
            \<longrightarrow> think E utterance s = (Inr v, s2)"
    unfolding t by simp
  have 3: "\<forall>e' s2. thinkWithLocalModel E utterance s1 = (Inl e', s2)
            \<longrightarrow> (\<exists>a \<in> set errorResponses. fst (think E utterance s) = Inr (Str a))"
  proof (intro allI impI)
    fix e' s2
    assume "thinkWithLocalModel E utterance s1 = (Inl e', s2)"
    then have "fst (think E utterance s) = Inr (fst (getErrorResponse E s2))"
      unfolding t by (simp add: map_prod_def split: prod.splits)
    then show "\<exists>a \<in> set errorResponses. fst (think E utterance s) = Inr (Str a)"
      using getErrorResponse_pool [OF assms(1), of s2] by auto
  qed
  have 4: "calls (snd (think E utterance s))
        = calls s1 @ (if llm_loaded s1 then [LlmCall (englishPrompt utterance) llm_options] else [])"
  proof (cases "thinkWithLocalModel E utterance s1")
    case (Pair r2 s2)
    then have c2: "calls s2 = calls s1 @ (if llm_loaded s1 then [LlmCall (englishPrompt utterance) llm_options] else [])"
      using log_local by simp
    show ?thesis
    proof (cases r2)
      case (Inl e')
      then have "snd (think E utterance s) = snd (getErrorResponse E s2)"
        unfolding t using Pair by (simp add: map_prod_def split: prod.splits)
      then show ?thesis using c2 log_err by simp
    next
      case (Inr v)
      then have "snd (think E utterance s) = s2" unfolding t using Pair by simp
      then show ?thesis using c2 by simp
    qed
  qed
  show ?thesis using 1 2 3 4 unfolding s1_def by simp
qed

theorem C2_witness:
  "random_in_unit stub
   \<and> useCloudAPI (snd (switchProvider stub (lit ''openai'')
        (new_BellaAI True (cloud_world [Inl (Thrown (lit ''HTTP 500''))] [Inl (Thrown (lit ''out of memory''))]))))
   \<and> (\<exists>a \<in> set errorResponses. fst (think stub (lit ''hello'')
        (snd (switchProvider stub (lit ''openai'')
          (new_BellaAI True (cloud_world [Inl (Thrown (lit ''HTTP 500''))] [Inl (Thrown (lit ''out of memory''))])))))
      = Inr (Str a))
   \<and> length (calls (snd (think stub (lit ''hello'')
        (snd (switchProvider stub (lit ''openai'')
          (new_BellaAI True (cloud_world [Inl (Thrown (lit ''HTTP 500''))] [Inl (Thrown (lit ''out of memory''))]))))))) = 2"
proof -
  let ?s = "snd (switchProvider stub (lit ''openai'')
        (new_BellaAI True (cloud_world [Inl (Thrown (lit ''HTTP 500''))] [Inl (Thrown (lit ''out of memory''))])))"
  let ?w1 = "cloud_world [] [Inl (Thrown (lit ''out of memory''))]"
  have u: "useCloudAPI ?s" and c: "cloud_isConfigured stub (world ?s)"
    and l: "llm_loaded ?s" and n: "calls ?s = []"
    by (simp_all add: switchProvider_def new_BellaAI_def cloud_world_def stub_def lit_def)
  have f: "cloud_chat stub (enhancePromptForMode ?s (lit ''hello'') False) (world ?s)
             = (Inl (Thrown (lit ''HTTP 500'')), ?w1)"
    by (simp add: switchProvider_def new_BellaAI_def cloud_world_def stub_def lit_def)
  have "\<exists>e' s2. thinkWithLocalModel stub (lit ''hello'')
          (?s\<lparr>world := ?w1,
              calls := calls ?s @ [CloudChat (enhancePromptForMode ?s (lit ''hello'') False)]\<rparr>)
         = (Inl e', s2)"
    by (simp add: thinkWithLocalModel_def switchProvider_def new_BellaAI_def cloud_world_def
          stub_def lit_def)
  then show ?thesis
    using C2_cloud_failure_fallback [OF stub_random_in_unit u c f] stub_random_in_unit u l n
    by auto
qed








text \<open>
  Claim C4 at a concrete input. After \<open>setChatMode('creative')\<close> has returned
  \<open>true\<close>, \<open>think('hi')\<close> on the local path sends the mode-independent prompt of
  \<open>thinkWithLocalModel\<close>, which contains neither \<open>hat naturally\<close> (so neither
  capitalisation of the creative fragment) nor the word \<open>creative\<close>. The prompt that
  \<open>enhancePromptForMode(prompt, true)\<close> builds for this mode does contain the fragment,
  but \<open>thinkWithLocalModel\<close> never calls it.
\<close>

theorem C4_local_prompt_ignores_mode:
  "fst (setChatMode (lit ''creative'')
         (new_BellaAI True (local_world [Inr (lit ''Sure, let us write a poem.'')])))
   \<and> calls (snd (think stub (lit ''hi'')
        (snd (setChatMode (lit ''creative'')
           (new_BellaAI True (local_world [Inr (lit ''Sure, let us write a poem.'')]))))))
      = [LlmCall (englishPrompt (lit ''hi'')) llm_options]
   \<and> \<not> includes_str (englishPrompt (lit ''hi'')) (lit ''hat naturally'')
   \<and> \<not> includes_str (englishPrompt (lit ''hi'')) (lit ''creative'')
   \<and> includes_str
        (enhancePromptForMode
           (snd (setChatMode (lit ''creative'')
              (new_BellaAI True (local_world [Inr (lit ''Sure, let us write a poem.'')]))))
           (lit ''hi'') True)
        (lit ''Chat naturally'')"
  by code_simp

text \<open>The current mode has no effect on what \<open>think\<close> resolves to, on any path.\<close>

lemma thinkWithLocalModel_mode:
  "thinkWithLocalModel E u (s\<lparr>currentMode := m\<rparr>)
     = (fst (thinkWithLocalModel E u s), (snd (thinkWithLocalModel E u s))\<lparr>currentMode := m\<rparr>)"
  by (simp add: thinkWithLocalModel_def Let_def split: prod.splits sum.splits)

lemma thinkWithLocalModel_useCloudAPI:
  "useCloudAPI (snd (thinkWithLocalModel E u s)) = useCloudAPI s"
  by (simp add: thinkWithLocalModel_def Let_def split: prod.splits sum.splits)

lemma thinkWithCloudAPI_mode:
  "thinkWithCloudAPI E u (s\<lparr>currentMode := m\<rparr>)
     = (fst (thinkWithCloudAPI E u s), (snd (thinkWithCloudAPI E u s))\<lparr>currentMode := m\<rparr>)"
  by (simp add: thinkWithCloudAPI_def enhancePromptForMode_def Let_def split: prod.splits)

lemma getErrorResponse_mode:
  "getErrorResponse E (s\<lparr>currentMode := m\<rparr>)
     = (fst (getErrorResponse E s), (snd (getErrorResponse E s))\<lparr>currentMode := m\<rparr>)"
  by (simp add: getErrorResponse_def split: prod.splits)

lemma think_ignores_mode:
  "think (E :: 'w collaborators) u (s\<lparr>currentMode := m\<rparr>)
     = (fst (think E u s), (snd (think E u s))\<lparr>currentMode := m\<rparr>)"
proof -
  define first where "first = (\<lambda>s0. if useCloudAPI s0 \<and> cloud_isConfigured E (world s0)
            then thinkWithCloudAPI E u s0 else thinkWithLocalModel E u s0)"
  define handler :: "'w bellaAI \<Rightarrow> (error + jsval) \<times> 'w bellaAI" where "handler = (\<lambda>s1. if useCloudAPI s1 then
             (case thinkWithLocalModel E u s1 of
                (Inr response, s2) \<Rightarrow> (Inr response, s2)
              | (Inl localError, s2) \<Rightarrow> map_prod Inr id (getErrorResponse E s2))
           else map_prod Inr id (getErrorResponse E s1))"
  have t: "\<And>s0. think E u s0 =
             (case first s0 of (Inr response, s1) \<Rightarrow> (Inr response, s1)
                             | (Inl err, s1) \<Rightarrow> handler s1)"
    unfolding think_def first_def handler_def by (rule refl)
  have f: "first (s\<lparr>currentMode := m\<rparr>) = (fst (first s), (snd (first s))\<lparr>currentMode := m\<rparr>)"
    by (simp add: first_def thinkWithLocalModel_mode thinkWithCloudAPI_mode)
  have h: "\<And>s1. handler (s1\<lparr>currentMode := m\<rparr>)
              = (fst (handler s1), (snd (handler s1))\<lparr>currentMode := m\<rparr>)"
  proof -
    fix s1 :: "'w bellaAI"
    obtain r2 s2 where l: "thinkWithLocalModel E u s1 = (r2, s2)"
      by (cases "thinkWithLocalModel E u s1")
    obtain v3 s3 where g: "getErrorResponse E s2 = (v3, s3)" by (cases "getErrorResponse E s2")
    obtain v4 s4 where g': "getErrorResponse E s1 = (v4, s4)" by (cases "getErrorResponse E s1")
    show "handler (s1\<lparr>currentMode := m\<rparr>)
              = (fst (handler s1), (snd (handler s1))\<lparr>currentMode := m\<rparr>)"
      by (cases r2)
         (simp_all add: handler_def thinkWithLocalModel_mode getErrorResponse_mode l g g')
  qed
  obtain r1 s1 where c: "first s = (r1, s1)" by (cases "first s")
  show ?thesis
    by (cases r1) (simp_all add: t f c h)
qed

text \<open>
  Claim C5 at a concrete input. The service is not configured and the local pipeline
  fails on its first call and answers on its second. With \<open>useCloudAPI\<close> set (by a
  successful \<open>switchProvider\<close>), the \<open>catch\<close> block of \<open>think\<close> runs the local path a
  second time and \<open>think\<close> resolves to the generated text, after two calls of the
  pipeline; with \<open>useCloudAPI\<close> clear it resolves to an apology after the one failed call.
\<close>

theorem C5_unconfigured_cloud_differs_from_local:
  "fst (think stub (lit ''hello'')
          (snd (switchProvider stub (lit ''openai'')
                 (new_BellaAI True
                    (local_world [Inl (Thrown (lit ''out of memory'')), Inr (lit ''Hello there'')])))))
     = Inr (Str (lit ''Hello there''))
   \<and> fst (think stub (lit ''hello'')
          (new_BellaAI True
             (local_world [Inl (Thrown (lit ''out of memory'')), Inr (lit ''Hello there'')])))
     = Inr (Str (errorResponses ! 0))
   \<and> useCloudAPI (snd (switchProvider stub (lit ''openai'')
                 (new_BellaAI True
                    (local_world [Inl (Thrown (lit ''out of memory'')), Inr (lit ''Hello there'')]))))
   \<and> \<not> cloud_isConfigured stub
          (local_world [Inl (Thrown (lit ''out of memory'')), Inr (lit ''Hello there'')])
   \<and> length (calls (snd (think stub (lit ''hello'')
          (snd (switchProvider stub (lit ''openai'')
                 (new_BellaAI True
                    (local_world [Inl (Thrown (lit ''out of memory'')), Inr (lit ''Hello there'')]))))))) = 2
   \<and> length (calls (snd (think stub (lit ''hello'')
          (new_BellaAI True
             (local_world [Inl (Thrown (lit ''out of memory'')), Inr (lit ''Hello there'')]))))) = 1"
  by (simp add: think_def thinkWithLocalModel_def getErrorResponse_def switchProvider_def
        new_BellaAI_def local_world_def stub_def englishPrompt_def errorResponses_def
        element_at_def double_eval lit_def isWhiteSpace_def trim_def)

text \<open>The two selections agree whenever the first run of the local path resolves.\<close>

lemma think_unconfigured_as_local_when_local_resolves:
  assumes "\<not> cloud_isConfigured E (world s)"
    and "thinkWithLocalModel E u s = (Inr v, s1)"
  shows "think E u s = (Inr v, s1)"
  using assms by (simp add: think_def)

section \<open>The setters\<close>

text \<open>
  Claim C6. \<open>setChatMode(mode)\<close> returns \<open>true\<close> exactly when \<open>mode\<close> is one of
  \<open>'casual'\<close>, \<open>'assistant'\<close>, \<open>'creative'\<close>; then the current mode becomes \<open>mode\<close> and
  nothing else changes. For every other string it returns \<open>false\<close> and the object is as
  it was.
\<close>

theorem C6_setChatMode:
  "fst (setChatMode mode s) = (mode \<in> {lit ''casual'', lit ''assistant'', lit ''creative''})
   \<and> (mode \<in> {lit ''casual'', lit ''assistant'', lit ''creative''}
        \<longrightarrow> snd (setChatMode mode s) = s\<lparr>currentMode := mode\<rparr>)
   \<and> (mode \<notin> {lit ''casual'', lit ''assistant'', lit ''creative''}
        \<longrightarrow> snd (setChatMode mode s) = s)"
  by (simp add: setChatMode_def)

theorem C6_setChatMode_witness:
  "fst (setChatMode (lit ''creative'') (new_BellaAI True stub_world0))
   \<and> currentMode (snd (setChatMode (lit ''creative'') (new_BellaAI True stub_world0)))
       = lit ''creative''
   \<and> \<not> fst (setChatMode (lit ''invalid'') (new_BellaAI True stub_world0))
   \<and> currentMode (snd (setChatMode (lit ''invalid'') (new_BellaAI True stub_world0)))
       = lit ''casual''"
  using C6_setChatMode [of "lit ''creative''" "new_BellaAI True stub_world0"]
        C6_setChatMode [of "lit ''invalid''" "new_BellaAI True stub_world0"]
  by (simp add: lit_def new_BellaAI_def)

text \<open>
  Claim C7. \<open>switchProvider('local')\<close> returns \<open>true\<close> and clears \<open>useCloudAPI\<close>. For any
  other provider name the result is the result of the cloud service's own
  \<open>switchProvider\<close>: when that is \<open>true\<close>, \<open>useCloudAPI\<close> is set; when it is \<open>false\<close>,
  \<open>useCloudAPI\<close> keeps its value. The mode is untouched either way.
\<close>

theorem C7_switchProvider:
  "switchProvider E (lit ''local'') s = (True, s\<lparr>useCloudAPI := False\<rparr>)
   \<and> (provider \<noteq> lit ''local'' \<longrightarrow>
        fst (switchProvider E provider s) = fst (cloud_switchProvider E provider (world s))
        \<and> currentMode (snd (switchProvider E provider s)) = currentMode s
        \<and> (fst (cloud_switchProvider E provider (world s))
              \<longrightarrow> useCloudAPI (snd (switchProvider E provider s)))
        \<and> (\<not> fst (cloud_switchProvider E provider (world s))
              \<longrightarrow> useCloudAPI (snd (switchProvider E provider s)) = useCloudAPI s))"
  by (simp add: switchProvider_def split: prod.splits)

theorem C7_switchProvider_witness:
  "lit ''openai'' \<noteq> lit ''local''
   \<and> fst (cloud_switchProvider stub (lit ''openai'') (stub_world0\<lparr>provider_known := True\<rparr>))
   \<and> fst (switchProvider stub (lit ''openai'')
             (new_BellaAI True (stub_world0\<lparr>provider_known := True\<rparr>)))
   \<and> useCloudAPI (snd (switchProvider stub (lit ''openai'')
             (new_BellaAI True (stub_world0\<lparr>provider_known := True\<rparr>))))
   \<and> \<not> fst (cloud_switchProvider stub (lit ''openai'') stub_world0)
   \<and> \<not> fst (switchProvider stub (lit ''openai'') (new_BellaAI True stub_world0))
   \<and> \<not> useCloudAPI (snd (switchProvider stub (lit ''openai'') (new_BellaAI True stub_world0)))"
  using C7_switchProvider [of stub "new_BellaAI True (stub_world0\<lparr>provider_known := True\<rparr>)"
          "lit ''openai''"]
        C7_switchProvider [of stub "new_BellaAI True stub_world0" "lit ''openai''"]
  by (simp add: lit_def new_BellaAI_def stub_def stub_world0_def)

text \<open>
  Claim C10. \<open>setAPIKey(provider, apiKey)\<close> and \<open>clearHistory()\<close> only call the cloud
  service: the current mode, \<open>useCloudAPI\<close> and the loaded model are what they were,
  whatever the service answers. A key that the service accepts does not select the
  cloud backend.
\<close>

theorem C10_setAPIKey_clearHistory_frame:
  "currentMode (snd (setAPIKey E provider apiKey s)) = currentMode s
   \<and> useCloudAPI (snd (setAPIKey E provider apiKey s)) = useCloudAPI s
   \<and> llm_loaded (snd (setAPIKey E provider apiKey s)) = llm_loaded s
   \<and> currentMode (clearHistory E s) = currentMode s
   \<and> useCloudAPI (clearHistory E s) = useCloudAPI s
   \<and> llm_loaded (clearHistory E s) = llm_loaded s"
  by (simp add: setAPIKey_def clearHistory_def split: prod.splits)

section \<open>The audio encoder: what it writes\<close>

lemma js_truncate_of_nat: "js_truncate (real n) = int n"
  by (simp add: js_truncate_def)

lemma to_bits_nat: "to_bits (Num (real n)) = word_of_nat n"
  by (simp add: js_truncate_of_nat)

lemma to_bits_numeral: "to_bits (Num (numeral k)) = numeral k"
  by (simp add: js_truncate_def)

lemma to_bits_one: "to_bits (Num 1) = 1"
  by (simp add: js_truncate_def)

lemma to_bits_unat: "(to_bits (Num (real (unat x))) :: 'b::len word) = ucast x"
  unfolding to_bits_nat by (simp add: of_nat_unat)

lemma zeros44: "replicate 44 (0 :: 8 word) = replicate 4 0 @ replicate 4 0 @ replicate 4 0
    @ replicate 4 0 @ replicate 4 0 @ replicate 2 0 @ replicate 2 0 @ replicate 4 0
    @ replicate 4 0 @ replicate 2 0 @ replicate 2 0 @ replicate 4 0 @ replicate 4 0"
  by (simp add: replicate_add [symmetric])

lemma store_at:
  assumes "length pre = off" and "length old = length bs"
  shows "store off bs (pre @ old @ post) = Inr (pre @ bs @ post)"
  using assms by (simp add: store_def)

lemma writeString4_at:
  assumes "length pre = off" and "length old = 4"
  shows "writeString off [a, b, c, d] (pre @ old @ post)
           = Inr (pre @ [ucast a, ucast b, ucast c, ucast d] @ post)"
proof -
  obtain o1 o2 o3 o4 where old: "old = [o1, o2, o3, o4]"
    using assms(2) by (auto simp: length_Suc_conv numeral_eq_Suc)
  have s: "\<And>k x p q r. length p = k \<Longrightarrow>
             setUint8 k (Num (real (unat (x :: 16 word)))) (p @ q # r) = Inr (p @ ucast x # r)"
  proof -
    fix k and x :: "16 word" and p :: bytes and q r
    assume "length p = k"
    then have "store k [to_bits (Num (real (unat x)))] (p @ [q] @ r)
             = Inr (p @ [to_bits (Num (real (unat x)))] @ r)"
      by (intro store_at) simp_all
    moreover have "(to_bits (Num (real (unat x))) :: 8 word) = ucast x"
      by (rule to_bits_unat)
    ultimately show "setUint8 k (Num (real (unat x))) (p @ q # r) = Inr (p @ ucast x # r)"
      by (simp only: setUint8_def append_Cons append_Nil)
  qed
  have 1: "setUint8 off (Num (real (unat a))) (pre @ o1 # o2 # o3 # o4 # post)
             = Inr (pre @ ucast a # o2 # o3 # o4 # post)"
    using s [OF assms(1)] by simp
  have 2: "setUint8 (off + 1) (Num (real (unat b))) ((pre @ [ucast a]) @ o2 # o3 # o4 # post)
             = Inr ((pre @ [ucast a]) @ ucast b # o3 # o4 # post)"
    by (rule s) (simp add: assms(1))
  have 3: "setUint8 (off + 1 + 1) (Num (real (unat c))) ((pre @ [ucast a, ucast b]) @ o3 # o4 # post)
             = Inr ((pre @ [ucast a, ucast b]) @ ucast c # o4 # post)"
    by (rule s) (simp add: assms(1))
  have 4: "setUint8 (off + 1 + 1 + 1) (Num (real (unat d))) ((pre @ [ucast a, ucast b, ucast c]) @ o4 # post)
             = Inr ((pre @ [ucast a, ucast b, ucast c]) @ ucast d # post)"
    by (rule s) (simp add: assms(1))
  show ?thesis using 1 2 3 4 by (simp add: old)
qed

lemma zeros44_explicit: "replicate 44 (0 :: 8 word) =
  [0,0,0,0, 0,0,0,0, 0,0,0,0, 0,0,0,0, 0,0,0,0, 0,0, 0,0, 0,0,0,0, 0,0,0,0, 0,0, 0,0, 0,0,0,0, 0,0,0,0]"
  by (simp add: numeral_eq_Suc)

lemma lit_tags:
  "lit ''RIFF'' = [0x52, 0x49, 0x46, 0x46]" "lit ''WAVE'' = [0x57, 0x41, 0x56, 0x45]"
  "lit ''fmt '' = [0x66, 0x6D, 0x74, 0x20]" "lit ''data'' = [0x64, 0x61, 0x74, 0x61]"
  by (simp_all add: lit_def)

lemma header_phase:
  "in_sequence
           [writeString 0 (lit ''RIFF''),
            setUint32 4 (Num (real (36 + len * 2))),
            writeString 8 (lit ''WAVE''),
            writeString 12 (lit ''fmt ''),
            setUint32 16 (Num 16),
            setUint16 20 (Num 1),
            setUint16 22 (Num 1),
            setUint32 24 sampleRate,
            setUint32 28 (js_times sampleRate (Num 2)),
            setUint16 32 (Num 2),
            setUint16 34 (Num 16),
            writeString 36 (lit ''data''),
            setUint32 40 (Num (real (len * 2)))]
           (replicate 44 0 @ rest)
     = Inr (wav_header len sampleRate @ rest)"
  unfolding to_bits_nat to_bits_numeral to_bits_one setUint32_def setUint16_def setUint8_def
    lit_tags zeros44_explicit wav_header_def
  by (simp add: store_def le32_def le16_def setUint8_def to_bits_unat to_bits_numeral to_bits_one del: to_bits.simps)


lemma in_sequence_append:
  "in_sequence (xs @ ys) buf
     = (case in_sequence xs buf of Inl e \<Rightarrow> Inl e | Inr buf1 \<Rightarrow> in_sequence ys buf1)"
  by (induction xs arbitrary: buf) (auto split: sum.splits)

lemma length_sample_bytes: "length (sample_bytes x) = 2"
  by (simp add: sample_bytes_def le16_def)

lemma write_samples_at:
  assumes "length pre = off" and "length old = 2 * length xs"
  shows "write_samples xs off (pre @ old @ post)
           = Inr (pre @ concat (map sample_bytes xs) @ post)"
  using assms
proof (induction xs arbitrary: pre old off)
  case Nil
  then show ?case by simp
next
  case (Cons x xs)
  then obtain o1 o2 old' where old: "old = o1 # o2 # old'" and l: "length old' = 2 * length xs"
    by (cases old; cases "tl old") auto
  have st: "setInt16 off (js_times (math_max (Num (- 1)) (math_min (Num 1) x)) (Num 32767))
              (pre @ [o1, o2] @ (old' @ post))
            = Inr (pre @ sample_bytes x @ (old' @ post))"
    unfolding setInt16_def sample_bytes_def
    by (rule store_at) (simp_all add: Cons.prems(1) le16_def)
  have "write_samples xs (off + 2) ((pre @ sample_bytes x) @ old' @ post)
          = Inr ((pre @ sample_bytes x) @ concat (map sample_bytes xs) @ post)"
    by (rule Cons.IH) (simp_all add: Cons.prems(1) length_sample_bytes l)
  then show ?case using st by (simp add: old Let_def)
qed

lemma convertFloat32ArrayToWav_bytes:
  "convertFloat32ArrayToWav audioData sampleRate
     = Inr (wav_header (length audioData) sampleRate @ concat (map sample_bytes audioData))"
proof -
  let ?n = "length audioData"
  let ?hdr = "[writeString 0 (lit ''RIFF''),
            setUint32 4 (Num (real (36 + ?n * 2))),
            writeString 8 (lit ''WAVE''),
            writeString 12 (lit ''fmt ''),
            setUint32 16 (Num 16),
            setUint16 20 (Num 1),
            setUint16 22 (Num 1),
            setUint32 24 sampleRate,
            setUint32 28 (js_times sampleRate (Num 2)),
            setUint16 32 (Num 2),
            setUint16 34 (Num 16),
            writeString 36 (lit ''data''),
            setUint32 40 (Num (real (?n * 2)))]"
  have len: "length (wav_header ?n sampleRate) = 44"
    by (simp add: wav_header_def le32_def le16_def)
  have "convertFloat32ArrayToWav audioData sampleRate
          = in_sequence (?hdr @ [write_samples audioData 44])
              (replicate 44 0 @ replicate (?n * 2) 0)"
    unfolding convertFloat32ArrayToWav_def Let_def replicate_add by simp
  also have "\<dots> = write_samples audioData 44
                      (wav_header ?n sampleRate @ replicate (?n * 2) 0 @ [])"
    unfolding in_sequence_append header_phase by (simp split: sum.splits)
  also have "\<dots> = Inr (wav_header ?n sampleRate @ concat (map sample_bytes audioData) @ [])"
    by (rule write_samples_at) (simp_all add: len)
  finally show ?thesis by simp
qed

lemma le16_roundtrip:
  "ucast (ucast v :: 8 word) OR push_bit 8 (ucast (ucast (drop_bit 8 v) :: 8 word)) = (v :: 16 word)"
  by (rule bit_word_eqI) (auto simp: bit_simps)

lemma le32_roundtrip:
  "ucast (ucast v :: 8 word) OR push_bit 8 (ucast (ucast (drop_bit 8 v) :: 8 word))
     OR push_bit 16 (ucast (ucast (drop_bit 16 v) :: 8 word))
     OR push_bit 24 (ucast (ucast (drop_bit 24 v) :: 8 word)) = (v :: 32 word)"
  apply (rule bit_word_eqI)
  subgoal for n
    by (cases "n < 8"; cases "n < 16"; cases "n < 24") (auto simp: bit_simps)
  done

lemma getUint16_at:
  assumes "length pre = off"
  shows "getUint16 off (pre @ le16 v @ post) = v"
  using assms le16_roundtrip [of v]
  by (simp add: getUint16_def le16_def nth_append)

lemma getUint32_at:
  assumes "length pre = off"
  shows "getUint32 off (pre @ le32 v @ post) = v"
  using assms le32_roundtrip [of v]
  by (simp add: getUint32_def le32_def nth_append)

lemma tag_at:
  assumes "length pre = off" and "length tag = 4"
  shows "take 4 (drop off (pre @ tag @ post)) = tag"
  using assms by simp

lemma concat_sample_bytes_split:
  assumes "i < length xs"
  shows "concat (map sample_bytes xs)
           = concat (map sample_bytes (take i xs)) @ sample_bytes (xs ! i)
               @ concat (map sample_bytes (drop (Suc i) xs))"
proof -
  have "xs = take i xs @ xs ! i # drop (Suc i) xs" using assms by (simp add: id_take_nth_drop)
  then have "concat (map sample_bytes xs)
       = concat (map sample_bytes (take i xs @ xs ! i # drop (Suc i) xs))" by simp
  then show ?thesis by simp
qed

lemma length_concat_sample_bytes: "length (concat (map sample_bytes xs)) = 2 * length xs"
  by (induction xs) (simp_all add: length_sample_bytes)

lemma sample_at:
  assumes "i < length xs" and "length hdr = 44"
  shows "getUint16 (44 + 2 * i) (hdr @ concat (map sample_bytes xs))
           = to_bits (js_times (math_max (Num (- 1)) (math_min (Num 1) (xs ! i))) (Num 32767))"
proof -
  let ?pre = "hdr @ concat (map sample_bytes (take i xs))"
  have l: "length ?pre = 44 + 2 * i"
    using assms by (simp add: length_concat_sample_bytes)
  have "hdr @ concat (map sample_bytes xs)
          = ?pre @ le16 (to_bits (js_times (math_max (Num (- 1)) (math_min (Num 1) (xs ! i))) (Num 32767)))
              @ concat (map sample_bytes (drop (Suc i) xs))"
    using concat_sample_bytes_split [OF assms(1)] by (simp add: sample_bytes_def)
  then show ?thesis using getUint16_at [OF l] by simp
qed

lemma js_truncate_bounds:
  assumes "- 1 \<le> c" and "c \<le> 1"
  shows "- 32767 \<le> js_truncate (c * 32767) \<and> js_truncate (c * 32767) \<le> 32767"
proof (cases "0 \<le> c")
  case True
  then have "js_truncate (c * 32767) = \<lfloor>c * 32767\<rfloor>" by (simp add: js_truncate_def)
  moreover have "0 \<le> \<lfloor>c * 32767\<rfloor>" using True by simp
  moreover have "\<lfloor>c * 32767\<rfloor> \<le> 32767" using assms(2) by (simp add: floor_le_iff)
  ultimately show ?thesis by simp
next
  case False
  then have "js_truncate (c * 32767) = \<lceil>c * 32767\<rceil>" by (simp add: js_truncate_def)
  moreover have "\<lceil>c * 32767\<rceil> \<le> 0" using False by (simp add: ceiling_le_iff)
  moreover have "- 32767 \<le> \<lceil>c * 32767\<rceil>" using assms(1) by (simp add: le_ceiling_iff)
  ultimately show ?thesis by simp
qed

lemma sint_int16:
  assumes "- 32767 \<le> k" and "k \<le> 32767"
  shows "sint (word_of_int k :: 16 word) = k"
  using assms by (simp add: signed_of_int signed_take_bit_int_eq_self)

lemma js_truncate_round: "\<bar>js_truncate y - round y\<bar> \<le> 1"
proof -
  define k where "k = js_truncate y - round y"
  have t: "real_of_int (js_truncate y) - y < 1 \<and> - 1 < real_of_int (js_truncate y) - y"
    unfolding js_truncate_def by (simp; linarith)
  have "\<bar>real_of_int (round y) - y\<bar> \<le> 1 / 2" by (rule of_int_round_abs_le)
  then have r: "real_of_int (round y) - y \<le> 1 / 2 \<and> - (1 / 2) \<le> real_of_int (round y) - y"
    unfolding abs_le_iff by simp
  have "real_of_int k = (real_of_int (js_truncate y) - y) - (real_of_int (round y) - y)"
    by (simp add: k_def)
  then have "real_of_int k < real_of_int 2 \<and> real_of_int (- 2) < real_of_int k"
    using t r by simp
  then have "k < 2 \<and> - 2 < k" unfolding of_int_less_iff .
  then have "\<bar>k\<bar> \<le> 1" by linarith
  then show ?thesis by (simp add: k_def)
qed

lemma header_fields:
  fixes a sr br d :: "32 word" and rest :: bytes
  defines "out \<equiv> [0x52, 0x49, 0x46, 0x46] @ le32 a
     @ [0x57, 0x41, 0x56, 0x45] @ [0x66, 0x6D, 0x74, 0x20]
     @ le32 16 @ le16 1 @ le16 1 @ le32 sr @ le32 br @ le16 2 @ le16 16
     @ [0x64, 0x61, 0x74, 0x61] @ le32 d @ rest"
  shows "take 4 out = ascii ''RIFF''" and "getUint32 4 out = a"
    and "take 4 (drop 8 out) = ascii ''WAVE''" and "take 4 (drop 12 out) = ascii ''fmt ''"
    and "getUint32 16 out = 16" and "getUint16 20 out = 1" and "getUint16 22 out = 1"
    and "getUint32 24 out = sr" and "getUint32 28 out = br"
    and "getUint16 32 out = 2" and "getUint16 34 out = 16"
    and "take 4 (drop 36 out) = ascii ''data''" and "getUint32 40 out = d"
  unfolding out_def
  using le32_roundtrip [of a] le32_roundtrip [of sr] le32_roundtrip [of br] le32_roundtrip [of d]
  by (simp_all add: getUint32_def getUint16_def le32_def le16_def ascii_def)


lemma unat_word32_of_nat:
  assumes "n < 2 ^ 32"
  shows "unat (word_of_nat n :: 32 word) = n"
  using assms by (simp add: unat_of_nat)

lemma length_wav_header: "length (wav_header len sampleRate) = 44"
  by (simp add: wav_header_def le32_def le16_def)


text \<open>
  Claim C8. For every sample sequence of length \<open>N\<close> and every sample rate the encoder
  returns \<open>44 + 2 * N\<close> bytes: \<open>RIFF\<close> at 0, the chunk size \<open>36 + 2 * N\<close> at 4, \<open>WAVE\<close>
  at 8, \<open>fmt\<close> and a space at 12, 16 at 16, the format code 1 at 20, the channel count 1
  at 22, the sample rate at 24, the byte rate (twice the sample rate) at 28, the block
  align 2 at 32, 16 bits per sample at 34, \<open>data\<close> at 36, the data size \<open>2 * N\<close> at 40,
  and from 44 on one little-endian 16-bit value per sample. Every multi-byte field is read
  back with the little-endian getter. A 32-bit field holds its value as \<open>setUint32\<close>
  stores it, the unsigned 32-bit number of that value; it is the value itself whenever
  the value is a natural number below \<open>2 ^ 32\<close>, as at the rate 16000 of the one call.
\<close>

theorem C8_wav_layout:
  "\<exists>out. convertFloat32ArrayToWav audioData sampleRate = Inr out
     \<and> length out = 44 + 2 * length audioData
     \<and> take 4 out = ascii ''RIFF''
     \<and> getUint32 4 out = word_of_nat (36 + 2 * length audioData)
     \<and> take 4 (drop 8 out) = ascii ''WAVE''
     \<and> take 4 (drop 12 out) = ascii ''fmt ''
     \<and> getUint32 16 out = 16
     \<and> getUint16 20 out = 1
     \<and> getUint16 22 out = 1
     \<and> getUint32 24 out = to_bits sampleRate
     \<and> getUint32 28 out = to_bits (js_times sampleRate (Num 2))
     \<and> getUint16 32 out = 2
     \<and> getUint16 34 out = 16
     \<and> take 4 (drop 36 out) = ascii ''data''
     \<and> getUint32 40 out = word_of_nat (2 * length audioData)
     \<and> (\<forall>i < length audioData.
            getUint16 (44 + 2 * i) out
              = to_bits (js_times (math_max (Num (- 1)) (math_min (Num 1) (audioData ! i)))
                          (Num 32767)))
     \<and> (36 + 2 * length audioData < 2 ^ 32 \<longrightarrow>
            unat (getUint32 4 out) = 36 + 2 * length audioData)
     \<and> (2 * length audioData < 2 ^ 32 \<longrightarrow>
            unat (getUint32 40 out) = 2 * length audioData)
     \<and> (\<forall>n. sampleRate = Num (real n) \<and> n < 2 ^ 32 \<longrightarrow> unat (getUint32 24 out) = n)
     \<and> (\<forall>n. sampleRate = Num (real n) \<and> 2 * n < 2 ^ 32 \<longrightarrow>
            unat (getUint32 28 out) = 2 * n)"
proof -
  let ?n = "length audioData"
  define out where "out = wav_header ?n sampleRate @ concat (map sample_bytes audioData)"
  have c: "convertFloat32ArrayToWav audioData sampleRate = Inr out"
    by (simp add: convertFloat32ArrayToWav_bytes out_def)
  have l: "length out = 44 + 2 * ?n"
    by (simp add: out_def length_wav_header length_concat_sample_bytes)
  have e: "out = [0x52, 0x49, 0x46, 0x46] @ le32 (word_of_nat (36 + ?n * 2))
     @ [0x57, 0x41, 0x56, 0x45] @ [0x66, 0x6D, 0x74, 0x20]
     @ le32 16 @ le16 1 @ le16 1
     @ le32 (to_bits sampleRate) @ le32 (to_bits (js_times sampleRate (Num 2)))
     @ le16 2 @ le16 16
     @ [0x64, 0x61, 0x74, 0x61] @ le32 (word_of_nat (?n * 2))
     @ concat (map sample_bytes audioData)"
    unfolding out_def wav_header_def by simp
  have f4: "getUint32 4 out = word_of_nat (36 + 2 * ?n)"
    unfolding e by (subst header_fields(2)) (simp add: mult.commute)
  have f40: "getUint32 40 out = word_of_nat (2 * ?n)"
    unfolding e by (subst header_fields(13)) (simp add: mult.commute)
  have f24: "getUint32 24 out = to_bits sampleRate"
    unfolding e by (rule header_fields(8))
  have f28: "getUint32 28 out = to_bits (js_times sampleRate (Num 2))"
    unfolding e by (rule header_fields(9))
  have s: "\<forall>i < ?n. getUint16 (44 + 2 * i) out
              = to_bits (js_times (math_max (Num (- 1)) (math_min (Num 1) (audioData ! i)))
                          (Num 32767))"
    unfolding out_def using sample_at [OF _ length_wav_header] by blast
  have size4: "36 + 2 * ?n < 2 ^ 32 \<longrightarrow> unat (getUint32 4 out) = 36 + 2 * ?n"
    unfolding f4 using unat_word32_of_nat by blast
  have size40: "2 * ?n < 2 ^ 32 \<longrightarrow> unat (getUint32 40 out) = 2 * ?n"
    unfolding f40 using unat_word32_of_nat by blast
  have rate: "\<forall>n. sampleRate = Num (real n) \<and> n < 2 ^ 32 \<longrightarrow> unat (getUint32 24 out) = n"
  proof (intro allI impI)
    fix n :: nat
    assume h: "sampleRate = Num (real n) \<and> n < 2 ^ 32"
    have a: "(to_bits sampleRate :: 32 word) = word_of_nat n"
      using h by (simp add: js_truncate_of_nat)
    show "unat (getUint32 24 out) = n"
      unfolding f24 a using h unat_word32_of_nat by blast
  qed
  have byte_rate: "\<forall>n. sampleRate = Num (real n) \<and> 2 * n < 2 ^ 32 \<longrightarrow>
            unat (getUint32 28 out) = 2 * n"
  proof (intro allI impI)
    fix n :: nat
    assume h: "sampleRate = Num (real n) \<and> 2 * n < 2 ^ 32"
    have "js_times sampleRate (Num 2) = Num (real (2 * n))" using h by simp
    then have b: "(to_bits (js_times sampleRate (Num 2)) :: 32 word) = word_of_nat (2 * n)"
      by (simp only: to_bits_nat)
    show "unat (getUint32 28 out) = 2 * n"
      unfolding f28 b using h unat_word32_of_nat by blast
  qed
  have t0: "take 4 out = ascii ''RIFF''" unfolding e by (rule header_fields(1))
  have t8: "take 4 (drop 8 out) = ascii ''WAVE''" unfolding e by (rule header_fields(3))
  have t12: "take 4 (drop 12 out) = ascii ''fmt ''" unfolding e by (rule header_fields(4))
  have f16: "getUint32 16 out = 16" unfolding e by (rule header_fields(5))
  have f20: "getUint16 20 out = 1" unfolding e by (rule header_fields(6))
  have f22: "getUint16 22 out = 1" unfolding e by (rule header_fields(7))
  have f32: "getUint16 32 out = 2" unfolding e by (rule header_fields(10))
  have f34: "getUint16 34 out = 16" unfolding e by (rule header_fields(11))
  have t36: "take 4 (drop 36 out) = ascii ''data''" unfolding e by (rule header_fields(12))
  show ?thesis
    by (rule exI [of _ out]; intro conjI)
       (fact c l t0 f4 t8 t12 f16 f20 f22 f24 f28 f32 f34 t36 f40 s size4 size40 rate byte_rate)+
qed

theorem C8_witness:
  "length (projr (convertFloat32ArrayToWav [Num 0, Num 1, Num (- 1)] (Num 16000))) = 50
   \<and> take 4 (projr (convertFloat32ArrayToWav [Num 0, Num 1, Num (- 1)] (Num 16000)))
        = [0x52, 0x49, 0x46, 0x46]
   \<and> unat (getUint32 4 (projr (convertFloat32ArrayToWav [Num 0, Num 1, Num (- 1)] (Num 16000)))) = 42
   \<and> unat (getUint32 24 (projr (convertFloat32ArrayToWav [Num 0, Num 1, Num (- 1)] (Num 16000)))) = 16000
   \<and> unat (getUint32 28 (projr (convertFloat32ArrayToWav [Num 0, Num 1, Num (- 1)] (Num 16000)))) = 32000
   \<and> unat (getUint32 40 (projr (convertFloat32ArrayToWav [Num 0, Num 1, Num (- 1)] (Num 16000)))) = 6
   \<and> getUint16 46 (projr (convertFloat32ArrayToWav [Num 0, Num 1, Num (- 1)] (Num 16000))) = 32767"
proof -
  let ?a = "[Num 0, Num 1, Num (- 1)]"
  have h1: "36 + 2 * length ?a < (2 :: nat) ^ 32" "2 * length ?a < (2 :: nat) ^ 32" by simp_all
  have h2: "Num 16000 = Num (real 16000) \<and> (16000 :: nat) < 2 ^ 32"
    "Num 16000 = Num (real 16000) \<and> 2 * (16000 :: nat) < 2 ^ 32" by simp_all
  have h3: "(1 :: nat) < length ?a" by simp
  obtain out where o: "convertFloat32ArrayToWav ?a (Num 16000) = Inr out"
    and r: "length out = 44 + 2 * length ?a" "take 4 out = ascii ''RIFF''"
      "36 + 2 * length ?a < 2 ^ 32 \<longrightarrow> unat (getUint32 4 out) = 36 + 2 * length ?a"
      "2 * length ?a < 2 ^ 32 \<longrightarrow> unat (getUint32 40 out) = 2 * length ?a"
      "\<forall>n. Num 16000 = Num (real n) \<and> n < 2 ^ 32 \<longrightarrow> unat (getUint32 24 out) = n"
      "\<forall>n. Num 16000 = Num (real n) \<and> 2 * n < 2 ^ 32 \<longrightarrow> unat (getUint32 28 out) = 2 * n"
      "\<forall>i < length ?a.
            getUint16 (44 + 2 * i) out
              = to_bits (js_times (math_max (Num (- 1)) (math_min (Num 1) (?a ! i))) (Num 32767))"
    using C8_wav_layout [of ?a "Num 16000"] by blast
  have p: "projr (convertFloat32ArrayToWav ?a (Num 16000)) = out" using o by simp
  have "unat (getUint32 24 out) = 16000" using r(5) h2(1) by blast
  moreover have "unat (getUint32 28 out) = 2 * 16000" using r(6) h2(2) by blast
  moreover have "unat (getUint32 4 out) = 36 + 2 * length ?a" using r(3) h1(1) by blast
  moreover have "unat (getUint32 40 out) = 2 * length ?a" using r(4) h1(2) by blast
  moreover have "getUint16 (44 + 2 * 1) out
      = to_bits (js_times (math_max (Num (- 1)) (math_min (Num 1) (?a ! 1))) (Num 32767))"
    using r(7) h3 by blast
  ultimately show ?thesis unfolding p using r(1,2) by (simp add: ascii_def js_truncate_def)
qed

lemma sint_sample:
  "sint (to_bits (js_times (math_max (Num (- 1)) (math_min (Num 1) (Num x))) (Num 32767)) :: 16 word)
     = js_truncate (max (- 1) (min 1 x) * 32767)"
proof -
  have "- 1 \<le> max (- 1) (min 1 x) \<and> max (- 1) (min 1 x) \<le> 1" by simp
  then have "- 32767 \<le> js_truncate (max (- 1) (min 1 x) * 32767)
           \<and> js_truncate (max (- 1) (min 1 x) * 32767) \<le> 32767"
    using js_truncate_bounds by blast
  then show ?thesis using sint_int16 by simp
qed

lemma sint_sample_bounds:
  "- 32767 \<le> sint (to_bits (js_times (math_max (Num (- 1)) (math_min (Num 1) x)) (Num 32767)) :: 16 word)
   \<and> sint (to_bits (js_times (math_max (Num (- 1)) (math_min (Num 1) x)) (Num 32767)) :: 16 word)
        \<le> 32767"
proof (cases x)
  case (Num r)
  have "- 1 \<le> max (- 1) (min 1 r) \<and> max (- 1) (min 1 r) \<le> 1" by simp
  then have "- 32767 \<le> js_truncate (max (- 1) (min 1 r) * 32767)
           \<and> js_truncate (max (- 1) (min 1 r) * 32767) \<le> 32767"
    using js_truncate_bounds by blast
  then show ?thesis unfolding Num sint_sample by simp
next
  case PosInfinity
  then show ?thesis by (simp add: js_truncate_def)
next
  case NegInfinity
  then show ?thesis by (simp add: js_truncate_def)
next
  case NaN
  then show ?thesis by simp
qed

lemma sample_bytes_above: "1 \<le> x \<Longrightarrow> sample_bytes (Num x) = sample_bytes (Num 1)"
  by (simp add: sample_bytes_def min_def)

lemma sample_bytes_below: "x \<le> - 1 \<Longrightarrow> sample_bytes (Num x) = sample_bytes (Num (- 1))"
  by (simp add: sample_bytes_def min_def max_def)

lemma convert_update:
  assumes "i < length xs" and "sample_bytes (xs ! i) = sample_bytes y"
  shows "convertFloat32ArrayToWav (xs[i := y]) sr = convertFloat32ArrayToWav xs sr"
proof -
  have "map sample_bytes (xs[i := y]) = (map sample_bytes xs)[i := sample_bytes (xs ! i)]"
    using assms(2) by (simp add: map_update)
  also have "\<dots> = map sample_bytes xs" using assms(1) by (simp add: list_update_same_conv)
  finally show ?thesis by (simp add: convertFloat32ArrayToWav_bytes)
qed


text \<open>
  Claim C9. Every encoded sample lies between \<open>-32767\<close> and \<open>32767\<close>, whatever the input
  (NaN and the infinities included), so no value wraps. A finite sample \<open>x\<close> is encoded
  as \<open>max (-1) (min 1 x) * 32767\<close> rounded towards zero, which is within 1 of the reference
  encoding (the same product rounded to the nearest integer). A sample above 1 gives the
  same output as the sample 1 in its place, a sample below \<open>-1\<close> the same as \<open>-1\<close>; in
  particular \<open>1.5\<close> encodes as \<open>1.0\<close> does.
\<close>

theorem C9_sample_encoding:
  "\<exists>out. convertFloat32ArrayToWav audioData sampleRate = Inr out
     \<and> (\<forall>i < length audioData.
           - 32767 \<le> getInt16 (44 + 2 * i) out \<and> getInt16 (44 + 2 * i) out \<le> 32767
           \<and> (\<forall>x. audioData ! i = Num x \<longrightarrow>
                  getInt16 (44 + 2 * i) out = js_truncate (max (- 1) (min 1 x) * 32767)
                  \<and> \<bar>getInt16 (44 + 2 * i) out - reference_int16 x\<bar> \<le> 1
                  \<and> (1 \<le> x \<longrightarrow>
                        convertFloat32ArrayToWav (audioData[i := Num 1]) sampleRate = Inr out)
                  \<and> (x \<le> - 1 \<longrightarrow>
                        convertFloat32ArrayToWav (audioData[i := Num (- 1)]) sampleRate = Inr out))
           \<and> (audioData ! i = PosInfinity \<longrightarrow> getInt16 (44 + 2 * i) out = 32767)
           \<and> (audioData ! i = NegInfinity \<longrightarrow> getInt16 (44 + 2 * i) out = - 32767)
           \<and> (audioData ! i = NaN \<longrightarrow> getInt16 (44 + 2 * i) out = 0))
     \<and> convertFloat32ArrayToWav [Num 1.5] sampleRate = convertFloat32ArrayToWav [Num 1] sampleRate"
proof -
  define out where "out = wav_header (length audioData) sampleRate
                            @ concat (map sample_bytes audioData)"
  have c: "convertFloat32ArrayToWav audioData sampleRate = Inr out"
    by (simp add: convertFloat32ArrayToWav_bytes out_def)
  have g: "\<And>i. i < length audioData \<Longrightarrow> getInt16 (44 + 2 * i) out
        = sint (to_bits (js_times (math_max (Num (- 1)) (math_min (Num 1) (audioData ! i)))
                          (Num 32767)) :: 16 word)"
    unfolding getInt16_def out_def using sample_at [OF _ length_wav_header] by simp
  have per_sample: "\<forall>i < length audioData.
           - 32767 \<le> getInt16 (44 + 2 * i) out \<and> getInt16 (44 + 2 * i) out \<le> 32767
           \<and> (\<forall>x. audioData ! i = Num x \<longrightarrow>
                  getInt16 (44 + 2 * i) out = js_truncate (max (- 1) (min 1 x) * 32767)
                  \<and> \<bar>getInt16 (44 + 2 * i) out - reference_int16 x\<bar> \<le> 1
                  \<and> (1 \<le> x \<longrightarrow>
                        convertFloat32ArrayToWav (audioData[i := Num 1]) sampleRate = Inr out)
                  \<and> (x \<le> - 1 \<longrightarrow>
                        convertFloat32ArrayToWav (audioData[i := Num (- 1)]) sampleRate = Inr out))
           \<and> (audioData ! i = PosInfinity \<longrightarrow> getInt16 (44 + 2 * i) out = 32767)
           \<and> (audioData ! i = NegInfinity \<longrightarrow> getInt16 (44 + 2 * i) out = - 32767)
           \<and> (audioData ! i = NaN \<longrightarrow> getInt16 (44 + 2 * i) out = 0)"
  proof (intro allI impI conjI)
    fix i
    assume i: "i < length audioData"
    show "- 32767 \<le> getInt16 (44 + 2 * i) out" "getInt16 (44 + 2 * i) out \<le> 32767"
      using g [OF i] sint_sample_bounds [of "audioData ! i"] by simp_all
    fix x
    assume x: "audioData ! i = Num x"
    show v: "getInt16 (44 + 2 * i) out = js_truncate (max (- 1) (min 1 x) * 32767)"
      using g [OF i] x sint_sample [of x] by simp
    show "\<bar>getInt16 (44 + 2 * i) out - reference_int16 x\<bar> \<le> 1"
      unfolding v reference_int16_def by (rule js_truncate_round)
    show "convertFloat32ArrayToWav (audioData[i := Num 1]) sampleRate = Inr out" if "1 \<le> x"
      using convert_update [OF i, of "Num 1"] sample_bytes_above [OF that] x c by simp
    show "convertFloat32ArrayToWav (audioData[i := Num (- 1)]) sampleRate = Inr out" if "x \<le> - 1"
      using convert_update [OF i, of "Num (- 1)"] sample_bytes_below [OF that] x c by simp
  next
    fix i
    assume i: "i < length audioData"
    show "getInt16 (44 + 2 * i) out = 32767" if "audioData ! i = PosInfinity"
      using g [OF i] that by (simp add: js_truncate_def)
    show "getInt16 (44 + 2 * i) out = - 32767" if "audioData ! i = NegInfinity"
      using g [OF i] that by (simp add: js_truncate_def)
    show "getInt16 (44 + 2 * i) out = 0" if "audioData ! i = NaN"
      using g [OF i] that by simp
  qed
  have "sample_bytes (Num 1.5) = sample_bytes (Num 1)" by (rule sample_bytes_above) simp
  then have same: "convertFloat32ArrayToWav [Num 1.5] sampleRate
                     = convertFloat32ArrayToWav [Num 1] sampleRate"
    by (simp add: convertFloat32ArrayToWav_bytes)
  show ?thesis using c per_sample same by blast
qed

theorem C9_witness:
  "getInt16 44 (projr (convertFloat32ArrayToWav [Num 1.5, Num (- 3), Num 0.5] (Num 16000))) = 32767
   \<and> getInt16 46 (projr (convertFloat32ArrayToWav [Num 1.5, Num (- 3), Num 0.5] (Num 16000))) = - 32767
   \<and> getInt16 48 (projr (convertFloat32ArrayToWav [Num 1.5, Num (- 3), Num 0.5] (Num 16000))) = 16383
   \<and> reference_int16 0.5 = 16384
   \<and> convertFloat32ArrayToWav [Num 1, Num (- 3), Num 0.5] (Num 16000)
        = convertFloat32ArrayToWav [Num 1.5, Num (- 3), Num 0.5] (Num 16000)"
proof -
  let ?a = "[Num 1.5, Num (- 3), Num 0.5]"
  obtain out where o: "convertFloat32ArrayToWav ?a (Num 16000) = Inr out"
    and r: "\<forall>i < length ?a.
           - 32767 \<le> getInt16 (44 + 2 * i) out \<and> getInt16 (44 + 2 * i) out \<le> 32767
           \<and> (\<forall>x. ?a ! i = Num x \<longrightarrow>
                  getInt16 (44 + 2 * i) out = js_truncate (max (- 1) (min 1 x) * 32767)
                  \<and> \<bar>getInt16 (44 + 2 * i) out - reference_int16 x\<bar> \<le> 1
                  \<and> (1 \<le> x \<longrightarrow>
                        convertFloat32ArrayToWav (?a[i := Num 1]) (Num 16000) = Inr out)
                  \<and> (x \<le> - 1 \<longrightarrow>
                        convertFloat32ArrayToWav (?a[i := Num (- 1)]) (Num 16000) = Inr out))
           \<and> (?a ! i = PosInfinity \<longrightarrow> getInt16 (44 + 2 * i) out = 32767)
           \<and> (?a ! i = NegInfinity \<longrightarrow> getInt16 (44 + 2 * i) out = - 32767)
           \<and> (?a ! i = NaN \<longrightarrow> getInt16 (44 + 2 * i) out = 0)"
    using C9_sample_encoding [of ?a "Num 16000"] by blast
  have p: "projr (convertFloat32ArrayToWav ?a (Num 16000)) = out" using o by simp
  have i: "(0 :: nat) < length ?a" "(1 :: nat) < length ?a" "(2 :: nat) < length ?a"
    and x: "?a ! 0 = Num 1.5" "?a ! 1 = Num (- 3)" "?a ! 2 = Num 0.5"
    and h: "(1 :: real) \<le> 1.5"
    by simp_all
  have 0: "getInt16 (44 + 2 * 0) out = js_truncate (max (- 1) (min 1 1.5) * 32767)
           \<and> convertFloat32ArrayToWav (?a[0 := Num 1]) (Num 16000) = Inr out"
    using r i(1) x(1) h by blast
  have 1: "getInt16 (44 + 2 * 1) out = js_truncate (max (- 1) (min 1 (- 3)) * 32767)"
    using r i(2) x(2) by blast
  have 2: "getInt16 (44 + 2 * 2) out = js_truncate (max (- 1) (min 1 0.5) * 32767)"
    using r i(3) x(3) by blast
  show ?thesis unfolding p using 0 1 2 o
    by (simp add: js_truncate_def reference_int16_def round_def)
qed

end
